theory Spec2Isabelle
  imports Complex_Main "HOL-Library.AList"
begin

section \<open>Errors\<close>

text \<open>
  Every way in which \<^verbatim>\<open>run_modelmerger\<close> of \<^verbatim>\<open>modules/extras.py\<close> can stop early is a
  value. \<open>Failed\<close> is the message returned through the local \<^verbatim>\<open>fail\<close>; the others are the
  Python exceptions raised by the function itself or by the libraries it calls.
\<close>

datatype error =
    Failed string
  | RuntimeError string
  | AssertionError
  | IndexError
  | KeyError
  | UnboundLocalError
  | TypeError
  | AttributeError
  | ExternalError string

section \<open>Tensors\<close>

text \<open>
  A tensor element is a floating point number. The model keeps the special values of
  IEEE arithmetic, which \<^verbatim>\<open>torch\<close> follows, and takes every finite result to be exact:
  rounding, overflow to an infinity and the sign of zero are not modelled.
\<close>

datatype flt = Fin real | PInf | NInf | NaN

fun fneg :: "flt \<Rightarrow> flt" where
  "fneg (Fin x) = Fin (- x)"
| "fneg PInf = NInf"
| "fneg NInf = PInf"
| "fneg NaN = NaN"

fun fadd :: "flt \<Rightarrow> flt \<Rightarrow> flt" where
  "fadd NaN _ = NaN"
| "fadd _ NaN = NaN"
| "fadd (Fin x) (Fin y) = Fin (x + y)"
| "fadd PInf NInf = NaN"
| "fadd NInf PInf = NaN"
| "fadd PInf _ = PInf"
| "fadd _ PInf = PInf"
| "fadd NInf _ = NInf"
| "fadd _ NInf = NInf"

definition fsub :: "flt \<Rightarrow> flt \<Rightarrow> flt" where
  "fsub x y = fadd x (fneg y)"

fun fsign :: "flt \<Rightarrow> int" where
  "fsign (Fin x) = (if x = 0 then 0 else if 0 < x then 1 else - 1)"
| "fsign PInf = 1"
| "fsign NInf = - 1"
| "fsign NaN = 0"

fun fmul :: "flt \<Rightarrow> flt \<Rightarrow> flt" where
  "fmul NaN _ = NaN"
| "fmul _ NaN = NaN"
| "fmul (Fin x) (Fin y) = Fin (x * y)"
| "fmul x y =
     (let s = fsign x * fsign y
      in if s = 0 then NaN else if 0 < s then PInf else NInf)"

fun finite_flt :: "flt \<Rightarrow> bool" where
  "finite_flt (Fin _) = True"
| "finite_flt _ = False"

text \<open>
  A tensor is its shape and its elements in row-major order, as \<^verbatim>\<open>torch\<close> stores a
  contiguous tensor. The element type (dtype) is not part of the model.
\<close>

record tensor =
  shape :: "nat list"
  data :: "flt list"

definition wf_tensor :: "tensor \<Rightarrow> bool" where
  "wf_tensor t \<longleftrightarrow> length (data t) = prod_list (shape t)"

definition all_finite :: "tensor \<Rightarrow> bool" where
  "all_finite t \<longleftrightarrow> list_all finite_flt (data t)"

fun chunks :: "nat \<Rightarrow> 'a list \<Rightarrow> 'a list list" where
  "chunks n xs =
     (if n = 0 \<or> xs = [] then [] else take n xs # chunks n (drop n xs))"

declare chunks.simps [simp del]

text \<open>Broadcasting of two shapes, aligned at the last dimension (both given reversed).\<close>

fun broadcast_rev :: "nat list \<Rightarrow> nat list \<Rightarrow> nat list option" where
  "broadcast_rev [] ys = Some ys"
| "broadcast_rev xs [] = Some xs"
| "broadcast_rev (x # xs) (y # ys) =
     (if x = y \<or> y = 1 then map_option ((#) x) (broadcast_rev xs ys)
      else if x = 1 then map_option ((#) y) (broadcast_rev xs ys)
      else None)"

definition broadcast_shapes :: "nat list \<Rightarrow> nat list \<Rightarrow> nat list option" where
  "broadcast_shapes s t = map_option rev (broadcast_rev (rev s) (rev t))"

text \<open>The elements of a tensor of shape \<open>s\<close> repeated to fill the shape \<open>t\<close> of equal rank.\<close>

fun expand :: "nat list \<Rightarrow> nat list \<Rightarrow> flt list \<Rightarrow> flt list" where
  "expand (s # ss) (t # ts) d =
     (let inner = concat (map (expand ss ts) (chunks (prod_list ss) d))
      in if s = t then inner else concat (replicate t inner))"
| "expand _ _ d = d"

definition expand_to :: "nat list \<Rightarrow> tensor \<Rightarrow> flt list" where
  "expand_to t a =
     expand (replicate (length t - length (shape a)) 1 @ shape a) t (data a)"

text \<open>
  An elementwise binary operator of \<^verbatim>\<open>torch\<close>: on equal shapes it pairs the elements; on
  different shapes it broadcasts, and raises \<^verbatim>\<open>RuntimeError\<close> where the shapes do not
  broadcast.
\<close>

definition tensor_binop :: "(flt \<Rightarrow> flt \<Rightarrow> flt) \<Rightarrow> tensor \<Rightarrow> tensor \<Rightarrow> error + tensor" where
  "tensor_binop f a b =
     (if shape a = shape b
      then Inr \<lparr>shape = shape a, data = map2 f (data a) (data b)\<rparr>
      else case broadcast_shapes (shape a) (shape b) of
             None \<Rightarrow> Inl (RuntimeError ''The size of tensor a must match the size of tensor b'')
           | Some s \<Rightarrow> Inr \<lparr>shape = s, data = map2 f (expand_to s a) (expand_to s b)\<rparr>)"

definition scalar_mul :: "flt \<Rightarrow> tensor \<Rightarrow> tensor" where
  "scalar_mul c t = t\<lparr>data := map (fmul c) (data t)\<rparr>"

definition zeros_like :: "tensor \<Rightarrow> tensor" where
  "zeros_like t = t\<lparr>data := map (\<lambda>_. Fin 0) (data t)\<rparr>"

section \<open>The merge operators\<close>

definition weighted_sum :: "tensor \<Rightarrow> tensor \<Rightarrow> flt \<Rightarrow> error + tensor" where
  "weighted_sum theta0 theta1 alpha =
     tensor_binop fadd (scalar_mul (fsub (Fin 1) alpha) theta0) (scalar_mul alpha theta1)"

definition get_difference :: "tensor \<Rightarrow> tensor \<Rightarrow> error + tensor" where
  "get_difference theta1 theta2 = tensor_binop fsub theta1 theta2"

definition add_difference :: "tensor \<Rightarrow> tensor \<Rightarrow> flt \<Rightarrow> error + tensor" where
  "add_difference theta0 theta1_2_diff alpha =
     tensor_binop fadd theta0 (scalar_mul alpha theta1_2_diff)"

section \<open>Keys and the patterns that classify them\<close>

text \<open>
  A key is a string of ASCII characters. \<^verbatim>\<open>\w\<close> of Python's \<^verbatim>\<open>re\<close> is a letter, a digit or
  the underscore.
\<close>

definition word_char :: "char \<Rightarrow> bool" where
  "word_char c \<longleftrightarrow>
     (let n = (of_char c :: nat)
      in (97 \<le> n \<and> n \<le> 122) \<or> (65 \<le> n \<and> n \<le> 90) \<or> (48 \<le> n \<and> n \<le> 57) \<or> n = 95)"

fun is_word :: "char option \<Rightarrow> bool" where
  "is_word None = False"
| "is_word (Some c) = word_char c"

text \<open>\<^verbatim>\<open>\b\<close>: exactly one of the characters around the position is a word character.\<close>

definition word_boundary :: "char option \<Rightarrow> char option \<Rightarrow> bool" where
  "word_boundary prev nxt \<longleftrightarrow> is_word prev \<noteq> is_word nxt"

fun first_char :: "string \<Rightarrow> char option" where
  "first_char [] = None"
| "first_char (c # _) = Some c"

fun strip_prefix :: "string \<Rightarrow> string \<Rightarrow> string option" where
  "strip_prefix [] s = Some s"
| "strip_prefix (p # ps) [] = None"
| "strip_prefix (p # ps) (c # cs) = (if p = c then strip_prefix ps cs else None)"

text \<open>
  The patterns of the form \<^verbatim>\<open>\b(m1|m2|...)\.\b\<close>, given by the list of their markers:
  a match at a position, and \<^verbatim>\<open>re.search\<close>, which tries every position.
\<close>

definition match_marker :: "string list \<Rightarrow> char option \<Rightarrow> string \<Rightarrow> bool" where
  "match_marker ms prev s \<longleftrightarrow>
     word_boundary prev (first_char s) \<and>
     list_ex (\<lambda>m. case strip_prefix (m @ ''.'') s of
                     None \<Rightarrow> False
                   | Some r \<Rightarrow> word_boundary (Some CHR ''.'') (first_char r)) ms"

fun search_marker_from :: "string list \<Rightarrow> char option \<Rightarrow> string \<Rightarrow> bool" where
  "search_marker_from ms prev [] = match_marker ms prev []"
| "search_marker_from ms prev (c # cs) =
     (match_marker ms prev (c # cs) \<or> search_marker_from ms (Some c) cs)"

definition search_marker :: "string list \<Rightarrow> string \<Rightarrow> bool" where
  "search_marker ms key = search_marker_from ms None key"

definition te_markers :: "string list" where
  "te_markers = [''text_model'', ''conditioner.embedders'', ''cond_stage_model.model'']"

definition vae_markers :: "string list" where
  "vae_markers = [''first_stage_model'', ''vae'']"

definition unet_markers :: "string list" where
  "unet_markers = [''model.diffusion_model'']"

text \<open>The three classes of keys: the patterns with which \<^verbatim>\<open>load_model\<close> strips a sub-block.\<close>

definition is_te_key :: "string \<Rightarrow> bool" where
  "is_te_key key = search_marker te_markers key"

definition is_vae_key :: "string \<Rightarrow> bool" where
  "is_vae_key key = search_marker vae_markers key"

definition is_unet_key :: "string \<Rightarrow> bool" where
  "is_unet_key key = search_marker unet_markers key"

text \<open>The \<^verbatim>\<open>match strip\<close> of \<^verbatim>\<open>load_model\<close>: the markers of the pattern compiled for each code.\<close>

definition strip_regex :: "nat \<Rightarrow> string list option" where
  "strip_regex strip =
     (if strip = 1 then Some [''text_model'', ''conditioner.embedders'', ''cond_stage_model.model'']
      else if strip = 2 then Some [''first_stage_model'', ''vae'']
      else if strip = 3 then Some [''text_model'', ''conditioner.embedders'',
             ''cond_stage_model.model'', ''first_stage_model'', ''vae'']
      else if strip = 4 then Some [''model.diffusion_model'']
      else if strip = 5 then Some [''text_model'', ''conditioner.embedders'',
             ''cond_stage_model.model'', ''model.diffusion_model'']
      else if strip = 6 then Some [''first_stage_model'', ''vae'', ''model.diffusion_model'']
      else if strip = 7 then Some [''text_model'', ''conditioner.embedders'',
             ''cond_stage_model.model'', ''first_stage_model'', ''vae'', ''model.diffusion_model'']
      else None)"

text \<open>\<^verbatim>\<open>sub in s\<close> on strings.\<close>

fun contains :: "string \<Rightarrow> string \<Rightarrow> bool" where
  "contains sub [] = (sub = [])"
| "contains sub (c # cs) = (strip_prefix sub (c # cs) \<noteq> None \<or> contains sub cs)"

text \<open>
  A pattern without groups, such as \<^verbatim>\<open>model.diffusion_model.\<close> of the recasting step, where
  an unescaped dot matches any character but a newline.
\<close>

datatype re_atom = Lit char | AnyChar

fun match_atoms :: "re_atom list \<Rightarrow> string \<Rightarrow> bool" where
  "match_atoms [] s = True"
| "match_atoms (a # as) [] = False"
| "match_atoms (Lit x # as) (c # cs) = (x = c \<and> match_atoms as cs)"
| "match_atoms (AnyChar # as) (c # cs) = (c \<noteq> CHR 0x0A \<and> match_atoms as cs)"

fun search_atoms :: "re_atom list \<Rightarrow> string \<Rightarrow> bool" where
  "search_atoms as [] = match_atoms as []"
| "search_atoms as (c # cs) = (match_atoms as (c # cs) \<or> search_atoms as cs)"

definition unet_cast_regex :: "re_atom list" where
  "unet_cast_regex =
     map Lit ''model'' @ [AnyChar] @ map Lit ''diffusion_model'' @ [AnyChar]"

definition checkpoint_dict_skip_on_merge :: "string list" where
  "checkpoint_dict_skip_on_merge =
     [''cond_stage_model.transformer.text_model.embeddings.position_ids'']"

section \<open>Weight maps\<close>

text \<open>
  A \<^verbatim>\<open>theta\<close> is a Python dictionary from keys to tensors, kept in insertion order:
  an association list. \<^verbatim>\<open>theta[k] = v\<close> is \<^const>\<open>AList.update\<close>, which replaces the value
  of a present key in place and appends an absent one; \<^verbatim>\<open>theta.pop(k, None)\<close> is
  \<^const>\<open>AList.delete\<close>.
\<close>

type_synonym theta = "(string \<times> tensor) list"

definition has_key :: "('k \<times> 'v) list \<Rightarrow> 'k \<Rightarrow> bool" where
  "has_key th k \<longleftrightarrow> map_of th k \<noteq> None"

definition getitem :: "('k \<times> 'v) list \<Rightarrow> 'k \<Rightarrow> error + 'v" where
  "getitem th k = (case map_of th k of None \<Rightarrow> Inl KeyError | Some v \<Rightarrow> Inr v)"

text \<open>
  \<^verbatim>\<open>for key in list(theta): if re.search(regex, key): theta.pop(key, None)\<close>
\<close>

definition pop_matching :: "(string \<Rightarrow> bool) \<Rightarrow> theta \<Rightarrow> theta" where
  "pop_matching p th = fold (\<lambda>key t. if p key then AList.delete key t else t) (map fst th) th"

text \<open>\<^verbatim>\<open>for key in theta.keys(): if re.search(regex, key): theta[key] = f(theta[key])\<close>\<close>

definition transform_matching :: "(string \<Rightarrow> bool) \<Rightarrow> (tensor \<Rightarrow> tensor) \<Rightarrow> theta \<Rightarrow> theta" where
  "transform_matching p f th = map (\<lambda>(k, v). if p k then (k, f v) else (k, v)) th"

text \<open>A loop whose body may raise: it stops at the first error.\<close>

fun for_each :: "('a \<Rightarrow> 's \<Rightarrow> error + 's) \<Rightarrow> 'a list \<Rightarrow> 's \<Rightarrow> error + 's" where
  "for_each body [] s = Inr s"
| "for_each body (x # xs) s =
     (case body x s of Inl e \<Rightarrow> Inl e | Inr s' \<Rightarrow> for_each body xs s')"

section \<open>The request and the collaborators\<close>

text \<open>
  The parameters of \<^verbatim>\<open>run_modelmerger\<close> that decide what is written to the output map.
  The parameters that only name the output file or build its metadata are left out.
\<close>

record request =
  model_names :: "string list"
  interp_method :: string
  multiplier :: flt
  save_u :: string
  save_v :: string
  save_t :: string
  calc_fp32 :: bool
  bake_in_vae :: string
  bake_in_te :: "string list"
  discard_weights :: string

text \<open>
  What \<^verbatim>\<open>run_modelmerger\<close> imports from outside \<^verbatim>\<open>modules/extras.py\<close>, as parameters:
  the checkpoint registry, the file readers, the regular expression compiler for the
  pattern the user gives, the conversions of \<^verbatim>\<open>torch\<close> between element types, the
  architecture guess of \<^verbatim>\<open>huggingface_guess\<close> and \<^verbatim>\<open>replace_state_dict\<close> of
  \<^verbatim>\<open>backend.loader\<close>. Each may raise. A dictionary handed to \<^verbatim>\<open>replace_state_dict\<close> has the
  probe key, which is \<^verbatim>\<open>None\<close> for an unknown architecture, so its keys are optional
  strings.
\<close>

type_synonym converted = "(string option \<times> tensor) list"

record 'g env =
  checkpoint_aliases :: "string \<Rightarrow> string option"
  load_torch_file :: "string \<Rightarrow> error + theta"
  vae_dict :: "string \<Rightarrow> string option"
  vae_load_torch_file :: "string \<Rightarrow> error + theta"
  module_list :: "string \<Rightarrow> string option"
  re_compile :: "string \<Rightarrow> error + (string \<Rightarrow> bool)"
  to_dtype :: "string \<Rightarrow> tensor \<Rightarrow> tensor"
  huggingface_guess :: "theta \<Rightarrow> error + 'g"
  replace_state_dict :: "converted \<Rightarrow> theta \<Rightarrow> 'g \<Rightarrow> error + converted"

section \<open>Loading a model\<close>

text \<open>
  The table \<^verbatim>\<open>theta_funcs\<close>, without the file name generators: \<^verbatim>\<open>theta_func1\<close> and
  \<^verbatim>\<open>theta_func2\<close> of each interpolation method.
\<close>

type_synonym theta_func1 = "tensor \<Rightarrow> tensor \<Rightarrow> error + tensor"
type_synonym theta_func2 = "tensor \<Rightarrow> tensor \<Rightarrow> flt \<Rightarrow> error + tensor"

definition theta_funcs :: "string \<Rightarrow> (theta_func1 option \<times> theta_func2 option) option" where
  "theta_funcs m =
     (if m = ''None'' then Some (None, None)
      else if m = ''Weighted sum'' then Some (None, Some weighted_sum)
      else if m = ''Add difference'' then Some (Some get_difference, Some add_difference)
      else if m = ''Extract Unet'' then Some (None, None)
      else if m = ''Extract VAE'' then Some (None, None)
      else if m = ''Extract Text encoder(s)'' then Some (None, None)
      else None)"

text \<open>The three conditions under which \<^verbatim>\<open>load_model\<close> adds 1, 2 and 4 to \<^verbatim>\<open>strip\<close>.\<close>

definition strips_te :: "request \<Rightarrow> bool" where
  "strips_te rq \<longleftrightarrow>
     (save_t rq = ''None (remove)'' \<or> interp_method rq = ''Extract Unet''
        \<or> interp_method rq = ''Extract VAE'')
     \<and> ''Built in (A)'' \<notin> set (bake_in_te rq)"

definition strips_vae :: "request \<Rightarrow> bool" where
  "strips_vae rq \<longleftrightarrow>
     (save_v rq = ''None (remove)'' \<or> interp_method rq = ''Extract Unet''
        \<or> interp_method rq = ''Extract Text encoder(s)'')
     \<and> bake_in_vae rq \<noteq> ''Built in (A)''"

definition strips_unet :: "request \<Rightarrow> bool" where
  "strips_unet rq \<longleftrightarrow>
     save_u rq = ''None (remove)'' \<or> interp_method rq = ''Extract VAE''
       \<or> interp_method rq = ''Extract Text encoder(s)''"

definition strip_code :: "request \<Rightarrow> nat" where
  "strip_code rq =
     (if strips_te rq then 1 else 0) + (if strips_vae rq then 2 else 0)
       + (if strips_unet rq then 4 else 0)"

definition strip_keys :: "request \<Rightarrow> theta \<Rightarrow> theta" where
  "strip_keys rq th =
     (case strip_regex (strip_code rq) of
        None \<Rightarrow> th
      | Some ms \<Rightarrow> if 0 < strip_code rq then pop_matching (search_marker ms) th else th)"

text \<open>The discard of the keys that match the user's pattern; an empty pattern is no pattern.\<close>

definition discard_keys :: "'g env \<Rightarrow> request \<Rightarrow> theta \<Rightarrow> error + theta" where
  "discard_keys ev rq th =
     (if discard_weights rq \<noteq> []
      then case re_compile ev (discard_weights rq) of
             Inl e \<Rightarrow> Inl e
           | Inr regex \<Rightarrow> Inr (pop_matching regex th)
      else Inr th)"

definition load_model :: "'g env \<Rightarrow> request \<Rightarrow> string \<Rightarrow> error + theta" where
  "load_model ev rq filename =
     (case load_torch_file ev filename of
        Inl e \<Rightarrow> Inl e
      | Inr th \<Rightarrow>
          (case discard_keys ev rq (strip_keys rq th) of
             Inl e \<Rightarrow> Inl e
           | Inr th' \<Rightarrow>
               Inr (if calc_fp32 rq
                    then map (\<lambda>(k, v). (k, to_dtype ev ''float32'' v)) th'
                    else th')))"

section \<open>Merging B and C\<close>

definition merge_b_c_key :: "theta_func1 \<Rightarrow> theta \<Rightarrow> string \<Rightarrow> theta \<Rightarrow> error + theta" where
  "merge_b_c_key func1 theta_2 key theta_1 =
     (if key \<in> set checkpoint_dict_skip_on_merge then Inr theta_1
      else if contains ''model'' key then
        (if has_key theta_2 key then
           (case getitem theta_1 key of
              Inl e \<Rightarrow> Inl e
            | Inr b \<Rightarrow>
                (case getitem theta_2 key of
                   Inl e \<Rightarrow> Inl e
                 | Inr t2 \<Rightarrow>
                     (case func1 b t2 of
                        Inl e \<Rightarrow> Inl e
                      | Inr d \<Rightarrow> Inr (AList.update key d theta_1))))
         else
           (case getitem theta_1 key of
              Inl e \<Rightarrow> Inl e
            | Inr b \<Rightarrow> Inr (AList.update key (zeros_like b) theta_1)))
      else Inr theta_1)"

definition merge_b_c :: "theta_func1 \<Rightarrow> theta \<Rightarrow> theta \<Rightarrow> error + theta" where
  "merge_b_c func1 theta_1 theta_2 =
     for_each (merge_b_c_key func1 theta_2) (map fst theta_1) theta_1"

section \<open>Merging A and B\<close>

text \<open>\<^verbatim>\<open>t.shape[1]\<close>, which raises \<^verbatim>\<open>IndexError\<close> on a tensor of rank below 2.\<close>

definition shape_at1 :: "tensor \<Rightarrow> error + nat" where
  "shape_at1 t = (case shape t of _ # d # _ \<Rightarrow> Inr d | _ \<Rightarrow> Inl IndexError)"

text \<open>
  \<^verbatim>\<open>a.shape[1] == m and b.shape[1] == n\<close>: the right operand is evaluated only when the left
  one is true.
\<close>

definition channels_are :: "tensor \<Rightarrow> nat \<Rightarrow> tensor \<Rightarrow> nat \<Rightarrow> error + bool" where
  "channels_are a m b n =
     (case shape_at1 a of
        Inl e \<Rightarrow> Inl e
      | Inr da \<Rightarrow>
          if da = m
          then (case shape_at1 b of Inl e \<Rightarrow> Inl e | Inr db \<Rightarrow> Inr (db = n))
          else Inr False)"

text \<open>
  \<^verbatim>\<open>a[:, 0:4, :, :]\<close>: four indices need a tensor of rank 4 at least. The elements of each
  index of dimension 0 are one chunk; the slice keeps the first 4 channels of each.
\<close>

definition slice_channels :: "tensor \<Rightarrow> error + tensor" where
  "slice_channels a =
     (case shape a of
        d0 # d1 # d2 # d3 # ds \<Rightarrow>
          (let p = prod_list (d2 # d3 # ds)
           in Inr \<lparr>shape = d0 # min 4 d1 # d2 # d3 # ds,
                   data = concat (map (take (min 4 d1 * p)) (chunks (d1 * p) (data a)))\<rparr>)
      | _ \<Rightarrow> Inl IndexError)"

text \<open>
  \<^verbatim>\<open>a[:, 0:4, :, :] = r\<close>, which writes into \<open>a\<close>. In \<^verbatim>\<open>run_modelmerger\<close> the value \<open>r\<close>
  always has the shape of the slice; a value of another shape that \<^verbatim>\<open>torch\<close> cannot
  expand to it raises \<^verbatim>\<open>RuntimeError\<close>, and the model raises for every other shape.
\<close>

definition assign_channels :: "tensor \<Rightarrow> tensor \<Rightarrow> error + tensor" where
  "assign_channels a r =
     (case shape a of
        d0 # d1 # d2 # d3 # ds \<Rightarrow>
          (let p = prod_list (d2 # d3 # ds)
           in if shape r = d0 # min 4 d1 # d2 # d3 # ds
              then Inr (a\<lparr>data :=
                     concat (map2 (\<lambda>ca cr. cr @ drop (min 4 d1 * p) ca)
                               (chunks (d1 * p) (data a))
                               (chunks (min 4 d1 * p) (data r)))\<rparr>)
              else Inl (RuntimeError ''The expanded size of the tensor must match the existing size''))
      | _ \<Rightarrow> Inl IndexError)"

text \<open>The channels from 4 on, \<^verbatim>\<open>a[:, 4:, :, :]\<close>, to state what an assignment leaves alone.\<close>

definition rest_channels :: "tensor \<Rightarrow> error + tensor" where
  "rest_channels a =
     (case shape a of
        d0 # d1 # d2 # d3 # ds \<Rightarrow>
          (let p = prod_list (d2 # d3 # ds)
           in Inr \<lparr>shape = d0 # (d1 - 4) # d2 # d3 # ds,
                   data = concat (map (drop (min 4 d1 * p)) (chunks (d1 * p) (data a)))\<rparr>)
      | _ \<Rightarrow> Inl IndexError)"

record merge_state =
  theta_0 :: theta
  result_is_inpainting_model :: bool
  result_is_instruct_pix2pix_model :: bool

text \<open>
  \<^verbatim>\<open>theta_0[key][:, 0:4, :, :] = theta_func2(a[:, 0:4, :, :], b, multiplier)\<close>
\<close>

definition merge_channels :: "theta_func2 \<Rightarrow> flt \<Rightarrow> tensor \<Rightarrow> tensor \<Rightarrow> error + tensor" where
  "merge_channels func2 mult a b =
     (case slice_channels a of
        Inl e \<Rightarrow> Inl e
      | Inr a4 \<Rightarrow>
          (case func2 a4 b mult of
             Inl e \<Rightarrow> Inl e
           | Inr r \<Rightarrow> assign_channels a r))"

definition inpainting_message :: string where
  "inpainting_message =
     ''When merging inpainting model with a normal one, A must be the inpainting model.''"

definition instruct_pix2pix_message :: string where
  "instruct_pix2pix_message =
     ''When merging instruct-pix2pix model with a normal one, A must be the instruct-pix2pix model.''"

text \<open>
  The body of the loop over \<^verbatim>\<open>a = theta_0[key]\<close> and \<^verbatim>\<open>b = theta_1[key]\<close>: the new value of
  the key and the two result flags.
\<close>

definition merge_pair ::
  "theta_func2 \<Rightarrow> flt \<Rightarrow> tensor \<Rightarrow> tensor \<Rightarrow> bool \<times> bool \<Rightarrow> error + (tensor \<times> bool \<times> bool)" where
  "merge_pair func2 mult a b flags =
     (if shape a \<noteq> shape b
         \<and> take 1 (shape a) @ drop 2 (shape a) = take 1 (shape b) @ drop 2 (shape b)
      then
        (case channels_are a 4 b 9 of
           Inl e \<Rightarrow> Inl e
         | Inr True \<Rightarrow> Inl (RuntimeError inpainting_message)
         | Inr False \<Rightarrow>
        (case channels_are a 4 b 8 of
           Inl e \<Rightarrow> Inl e
         | Inr True \<Rightarrow> Inl (RuntimeError instruct_pix2pix_message)
         | Inr False \<Rightarrow>
        (case channels_are a 8 b 4 of
           Inl e \<Rightarrow> Inl e
         | Inr True \<Rightarrow>
             (case merge_channels func2 mult a b of
                Inl e \<Rightarrow> Inl e
              | Inr v \<Rightarrow> Inr (v, fst flags, True))
         | Inr False \<Rightarrow>
        (case channels_are a 9 b 4 of
           Inl e \<Rightarrow> Inl e
         | Inr False \<Rightarrow> Inl AssertionError
         | Inr True \<Rightarrow>
             (case merge_channels func2 mult a b of
                Inl e \<Rightarrow> Inl e
              | Inr v \<Rightarrow> Inr (v, True, snd flags))))))
      else
        (case func2 a b mult of
           Inl e \<Rightarrow> Inl e
         | Inr v \<Rightarrow> Inr (v, fst flags, snd flags)))"

definition merge_a_b_key ::
  "theta_func2 \<Rightarrow> flt \<Rightarrow> theta \<Rightarrow> string \<Rightarrow> merge_state \<Rightarrow> error + merge_state" where
  "merge_a_b_key func2 mult theta_1 key st =
     (if has_key theta_1 key \<and> contains ''model'' key then
        (if key \<in> set checkpoint_dict_skip_on_merge then Inr st
         else
           (case getitem (theta_0 st) key of
              Inl e \<Rightarrow> Inl e
            | Inr a \<Rightarrow>
                (case getitem theta_1 key of
                   Inl e \<Rightarrow> Inl e
                 | Inr b \<Rightarrow>
                     (case merge_pair func2 mult a b
                             (result_is_inpainting_model st, result_is_instruct_pix2pix_model st) of
                        Inl e \<Rightarrow> Inl e
                      | Inr (v, inp, p2p) \<Rightarrow>
                          Inr \<lparr>theta_0 = AList.update key v (theta_0 st),
                               result_is_inpainting_model = inp,
                               result_is_instruct_pix2pix_model = p2p\<rparr>))))
      else Inr st)"

definition merge_a_b :: "theta_func2 \<Rightarrow> flt \<Rightarrow> theta \<Rightarrow> theta \<Rightarrow> error + merge_state" where
  "merge_a_b func2 mult th0 theta_1 =
     for_each (merge_a_b_key func2 mult theta_1) (map fst th0)
       \<lparr>theta_0 = th0, result_is_inpainting_model = False,
        result_is_instruct_pix2pix_model = False\<rparr>"

section \<open>Baking, discarding and recasting\<close>

definition sd15_test_key :: string where
  "sd15_test_key = ''model.diffusion_model.output_blocks.10.0.emb_layers.1.bias''"

definition sdxl_test_key :: string where
  "sdxl_test_key = ''model.diffusion_model.output_blocks.8.0.emb_layers.1.bias''"

definition flux_test_key :: string where
  "flux_test_key = ''model.diffusion_model.double_blocks.0.img_attn.norm.key_norm.scale''"

text \<open>The architecture probe: \<open>None\<close> is Python's \<^verbatim>\<open>None\<close>, the unknown architecture.\<close>

definition unet_test_key :: "theta \<Rightarrow> string option" where
  "unet_test_key th0 =
     (if has_key th0 sd15_test_key then Some sd15_test_key
      else if has_key th0 sdxl_test_key then Some sdxl_test_key
      else if has_key th0 flux_test_key then Some flux_test_key
      else None)"

text \<open>The placeholder \<^verbatim>\<open>[0.0]\<close> stored at the probe key.\<close>

definition probe_value :: tensor where
  "probe_value = \<lparr>shape = [1], data = [Fin 0]\<rparr>"

text \<open>
  \<^verbatim>\<open>for key in converted.keys(): theta_0[key] = converted[key]\<close>. The keys of \<^verbatim>\<open>theta_0\<close> are
  strings: a key \<^verbatim>\<open>None\<close> stored in it makes every later step that reads the keys raise
  \<^verbatim>\<open>TypeError\<close>, and the model raises it here.
\<close>

definition overlay_key :: "converted \<Rightarrow> string option \<Rightarrow> theta \<Rightarrow> error + theta" where
  "overlay_key conv key th0 =
     (case getitem conv key of
        Inl e \<Rightarrow> Inl e
      | Inr v \<Rightarrow> (case key of None \<Rightarrow> Inl TypeError | Some k \<Rightarrow> Inr (AList.update k v th0)))"

definition overlay :: "converted \<Rightarrow> theta \<Rightarrow> error + theta" where
  "overlay conv th0 = for_each (overlay_key conv) (map fst conv) th0"

text \<open>
  The body shared by the two baking steps: the probe dictionary, \<^verbatim>\<open>replace_state_dict\<close>,
  \<^verbatim>\<open>converted.pop(unet_test_key)\<close>, which raises \<^verbatim>\<open>KeyError\<close> on an absent key, and the
  overlay. No branch of it looks at whether the probe key is \<^verbatim>\<open>None\<close>.
\<close>

definition bake_dict :: "'g env \<Rightarrow> string option \<Rightarrow> 'g \<Rightarrow> theta \<Rightarrow> theta \<Rightarrow> error + theta" where
  "bake_dict ev test_key g source th0 =
     (case replace_state_dict ev [(test_key, probe_value)] source g of
        Inl e \<Rightarrow> Inl e
      | Inr conv \<Rightarrow>
          if has_key conv test_key then overlay (AList.delete test_key conv) th0
          else Inl KeyError)"

definition bake_vae :: "'g env \<Rightarrow> request \<Rightarrow> string option \<Rightarrow> 'g \<Rightarrow> theta \<Rightarrow> error + theta" where
  "bake_vae ev rq test_key g th0 =
     (if \<not> contains ''None'' (bake_in_vae rq) \<and> \<not> contains ''Built in'' (bake_in_vae rq)
      then case vae_dict ev (bake_in_vae rq) of
             None \<Rightarrow> Inl KeyError
           | Some file \<Rightarrow>
               (case vae_load_torch_file ev file of
                  Inl e \<Rightarrow> Inl e
                | Inr vae \<Rightarrow> bake_dict ev test_key g vae th0)
      else Inr th0)"

definition bake_one_te :: "'g env \<Rightarrow> string option \<Rightarrow> 'g \<Rightarrow> string \<Rightarrow> theta \<Rightarrow> error + theta" where
  "bake_one_te ev test_key g te th0 =
     (case module_list ev te of
        None \<Rightarrow> Inl KeyError
      | Some file \<Rightarrow>
          (case load_torch_file ev file of
             Inl e \<Rightarrow> Inl e
           | Inr te_dict \<Rightarrow> bake_dict ev test_key g te_dict th0))"

definition bake_te :: "'g env \<Rightarrow> request \<Rightarrow> string option \<Rightarrow> 'g \<Rightarrow> theta \<Rightarrow> error + theta" where
  "bake_te ev rq test_key g th0 =
     (if bake_in_te rq \<noteq> [] \<and> ''Built in'' \<notin> set (bake_in_te rq)
      then for_each (bake_one_te ev test_key g) (bake_in_te rq) th0
      else Inr th0)"

text \<open>
  One round of the loop over \<^verbatim>\<open>saves\<close>: the pattern set by the number that precedes it, and the
  save policy. \<^verbatim>\<open>to_bfloat16\<close>, \<^verbatim>\<open>to_float16\<close>, \<^verbatim>\<open>to_fp8e4m3\<close> and \<^verbatim>\<open>to_fp8e5m2\<close> convert to the
  element type they name.
\<close>

definition recast :: "'g env \<Rightarrow> (string \<Rightarrow> bool) \<Rightarrow> string \<Rightarrow> theta \<Rightarrow> theta" where
  "recast ev regex save th =
     (if save \<noteq> ''None'' \<and> save \<noteq> ''No change'' then
        (if save = ''bfloat16'' then transform_matching regex (to_dtype ev ''bfloat16'') th
         else if save = ''float16'' then transform_matching regex (to_dtype ev ''float16'') th
         else if save = ''fp8e4m3'' then transform_matching regex (to_dtype ev ''float8_e4m3fn'') th
         else if save = ''fp8e5m2'' then transform_matching regex (to_dtype ev ''float8_e5m2'') th
         else th)
      else th)"

definition recast_all :: "'g env \<Rightarrow> request \<Rightarrow> theta \<Rightarrow> theta" where
  "recast_all ev rq th =
     recast ev (search_marker [''text_model'', ''conditioner.embedders'']) (save_t rq)
       (recast ev (search_marker [''first_stage_model'', ''vae'']) (save_v rq)
          (recast ev (search_atoms unet_cast_regex) (save_u rq) th))"

section \<open>The whole run\<close>

text \<open>
  What a run that does not raise hands to \<^verbatim>\<open>safetensors.torch.save_file\<close>: the map and the
  two result flags. \<open>NotSaved\<close> is the return without a save of the extract branch.
\<close>

datatype outcome = Saved theta bool bool | NotSaved

definition checkpoint_file :: "'g env \<Rightarrow> string \<Rightarrow> error + string" where
  "checkpoint_file ev name =
     (case checkpoint_aliases ev name of None \<Rightarrow> Inl KeyError | Some file \<Rightarrow> Inr file)"

text \<open>
  A model that the method needs: its name is unbound when \<^verbatim>\<open>model_names\<close> is too short, the
  run fails with the message when the name is empty, and the registry is asked otherwise.
\<close>

definition required_model :: "'g env \<Rightarrow> string list \<Rightarrow> nat \<Rightarrow> string \<Rightarrow> error + string" where
  "required_model ev names i message =
     (if i < length names
      then (if names ! i = [] then Inl (Failed message) else checkpoint_file ev (names ! i))
      else Inl UnboundLocalError)"

text \<open>
  The loads of B and C and the merge of the two: \<^verbatim>\<open>theta_1\<close>, kept with the \<^verbatim>\<open>theta_func2\<close>
  that it exists for.
\<close>

definition load_theta_1 ::
  "'g env \<Rightarrow> request \<Rightarrow> theta_func1 option \<Rightarrow> theta_func2 option \<Rightarrow> string \<Rightarrow> string
     \<Rightarrow> error + (theta_func2 \<times> theta) option" where
  "load_theta_1 ev rq func1 func2 file_b file_c =
     (case func2 of
        None \<Rightarrow>
          (case func1 of None \<Rightarrow> Inr None | Some _ \<Rightarrow> Inl AttributeError)
      | Some f2 \<Rightarrow>
          (case load_model ev rq file_b of
             Inl e \<Rightarrow> Inl e
           | Inr theta_1 \<Rightarrow>
               (case func1 of
                  None \<Rightarrow> Inr (Some (f2, theta_1))
                | Some f1 \<Rightarrow>
                    (case load_model ev rq file_c of
                       Inl e \<Rightarrow> Inl e
                     | Inr theta_2 \<Rightarrow>
                         (case merge_b_c f1 theta_1 theta_2 of
                            Inl e \<Rightarrow> Inl e
                          | Inr d \<Rightarrow> Inr (Some (f2, d)))))))"

text \<open>\<^verbatim>\<open>if theta_1:\<close> is false for \<^verbatim>\<open>None\<close> and for an empty dictionary.\<close>

definition merge_step :: "request \<Rightarrow> (theta_func2 \<times> theta) option \<Rightarrow> theta \<Rightarrow> error + merge_state" where
  "merge_step rq t1 th0 =
     (case t1 of
        Some (f2, theta_1) \<Rightarrow>
          if theta_1 \<noteq> [] then merge_a_b f2 (multiplier rq) th0 theta_1
          else Inr \<lparr>theta_0 = th0, result_is_inpainting_model = False,
                    result_is_instruct_pix2pix_model = False\<rparr>
      | None \<Rightarrow> Inr \<lparr>theta_0 = th0, result_is_inpainting_model = False,
                     result_is_instruct_pix2pix_model = False\<rparr>)"

text \<open>The steps after the merge, up to the map that is saved.\<close>

definition finish :: "'g env \<Rightarrow> request \<Rightarrow> string option \<Rightarrow> theta \<Rightarrow> error + theta" where
  "finish ev rq test_key th0 =
     (case huggingface_guess ev th0 of
        Inl e \<Rightarrow> Inl e
      | Inr g \<Rightarrow>
          (case bake_vae ev rq test_key g th0 of
             Inl e \<Rightarrow> Inl e
           | Inr th1 \<Rightarrow>
               (case bake_te ev rq test_key g th1 of
                  Inl e \<Rightarrow> Inl e
                | Inr th2 \<Rightarrow>
                    (case discard_keys ev rq th2 of
                       Inl e \<Rightarrow> Inl e
                     | Inr th3 \<Rightarrow> Inr (recast_all ev rq th3)))))"

definition extract_branch :: "request \<Rightarrow> theta \<Rightarrow> outcome" where
  "extract_branch rq th0 =
     (if interp_method rq = ''Extract Text encoder(s)'' then Saved th0 False False
      else if interp_method rq = ''Extract VAE'' then Saved th0 False False
      else if interp_method rq = ''Extract Unet'' then Saved th0 False False
      else NotSaved)"

definition merge_branch ::
  "'g env \<Rightarrow> request \<Rightarrow> (theta_func2 \<times> theta) option \<Rightarrow> theta \<Rightarrow> error + outcome" where
  "merge_branch ev rq t1 th0 =
     (case merge_step rq t1 th0 of
        Inl e \<Rightarrow> Inl e
      | Inr st \<Rightarrow>
          (case finish ev rq (unet_test_key th0) (theta_0 st) of
             Inl e \<Rightarrow> Inl e
           | Inr out \<Rightarrow>
               Inr (Saved out (result_is_inpainting_model st)
                      (result_is_instruct_pix2pix_model st))))"

definition run_loaded ::
  "'g env \<Rightarrow> request \<Rightarrow> theta_func1 option \<Rightarrow> theta_func2 option \<Rightarrow> string \<Rightarrow> string \<Rightarrow> string
     \<Rightarrow> error + outcome" where
  "run_loaded ev rq func1 func2 file_a file_b file_c =
     (case load_theta_1 ev rq func1 func2 file_b file_c of
        Inl e \<Rightarrow> Inl e
      | Inr t1 \<Rightarrow>
          (case load_model ev rq file_a of
             Inl e \<Rightarrow> Inl e
           | Inr th0 \<Rightarrow>
               if contains ''Extract'' (interp_method rq) then Inr (extract_branch rq th0)
               else merge_branch ev rq t1 th0))"

definition run_modelmerger :: "'g env \<Rightarrow> request \<Rightarrow> error + outcome" where
  "run_modelmerger ev rq =
     (case model_names rq of
        [] \<Rightarrow> Inl IndexError
      | primary # _ \<Rightarrow>
          (case theta_funcs (interp_method rq) of
             None \<Rightarrow> Inl KeyError
           | Some (func1, func2) \<Rightarrow>
               if primary = [] then Inl (Failed ''Failed: Merging requires a primary model.'')
               else
                 (case checkpoint_file ev primary of
                    Inl e \<Rightarrow> Inl e
                  | Inr file_a \<Rightarrow>
                 (case (case func2 of
                          None \<Rightarrow> Inr []
                        | Some _ \<Rightarrow> required_model ev (model_names rq) 1
                               ''Failed: Merging requires a secondary model.'') of
                    Inl e \<Rightarrow> Inl e
                  | Inr file_b \<Rightarrow>
                 (case (case func1 of
                          None \<Rightarrow> Inr []
                        | Some _ \<Rightarrow> required_model ev (model_names rq) 2
                               (''Failed: Interpolation method ('' @ interp_method rq
                                  @ '') requires a tertiary model.'')) of
                    Inl e \<Rightarrow> Inl e
                  | Inr file_c \<Rightarrow> run_loaded ev rq func1 func2 file_a file_b file_c)))))"

section \<open>A small installation\<close>

text \<open>The meaning of a pattern that no key matches.\<close>

definition matches_nothing :: "string \<Rightarrow> bool" where
  "matches_nothing key = False"

text \<open>
  Modelled from the spec: \<^verbatim>\<open>replace_state_dict\<close> of \<^verbatim>\<open>backend.loader\<close>, which is not among
  the sources. The spec (sections 4.5 and 6) describes it as the key remapping
  \<^verbatim>\<open>remap(delta_probe_map, source_map, architecture_tag) -> remapped_map\<close>: it remaps the keys
  of the source map into the namespace of the target and returns them together with the
  probe map, from which the caller then discards the probe key. The namespace is given here
  as the prefix that the remapped keys get.
\<close>

definition remap_with_prefix :: "string \<Rightarrow> converted \<Rightarrow> theta \<Rightarrow> 'g \<Rightarrow> error + converted" where
  "remap_with_prefix prefix sd asd g = Inr (sd @ map (\<lambda>(k, t). (Some (prefix @ k), t)) asd)"

text \<open>
  Concrete collaborators, to run the model: three checkpoints \<^verbatim>\<open>A\<close>, \<^verbatim>\<open>B\<close> and \<^verbatim>\<open>C\<close> with the
  given contents, one external VAE \<^verbatim>\<open>ext.vae\<close>, a compiler that gives every pattern the
  meaning \<open>regex\<close>, conversions that leave the elements alone, and the remapping into the
  namespace of the VAE.
\<close>

definition example_env :: "theta \<Rightarrow> theta \<Rightarrow> theta \<Rightarrow> theta \<Rightarrow> (string \<Rightarrow> bool) \<Rightarrow> unit env" where
  "example_env a b c vae regex =
     \<lparr>checkpoint_aliases =
        (\<lambda>n. if n = ''A'' then Some ''A.safetensors''
             else if n = ''B'' then Some ''B.safetensors''
             else if n = ''C'' then Some ''C.safetensors'' else None),
      load_torch_file =
        (\<lambda>f. if f = ''A.safetensors'' then Inr a
             else if f = ''B.safetensors'' then Inr b
             else if f = ''C.safetensors'' then Inr c
             else Inl (ExternalError ''file not found'')),
      vae_dict = (\<lambda>n. if n = ''ext.vae'' then Some ''ext.vae.safetensors'' else None),
      vae_load_torch_file =
        (\<lambda>f. if f = ''ext.vae.safetensors'' then Inr vae
             else Inl (ExternalError ''file not found'')),
      module_list = (\<lambda>n. None),
      re_compile = (\<lambda>p. Inr regex),
      to_dtype = (\<lambda>d t. t),
      huggingface_guess = (\<lambda>th. Inr ()),
      replace_state_dict = remap_with_prefix ''first_stage_model.''\<rparr>"


definition example_request :: "string \<Rightarrow> string \<Rightarrow> string \<Rightarrow> string \<Rightarrow> request" where
  "example_request method policy_v vae pattern =
     \<lparr>model_names = [''A'', ''B'', ''C''], interp_method = method, multiplier = Fin (1 / 2),
      save_u = ''No change'', save_v = policy_v, save_t = ''No change'', calc_fp32 = False,
      bake_in_vae = vae, bake_in_te = [], discard_weights = pattern\<rparr>"

definition scalar :: "real \<Rightarrow> tensor" where
  "scalar x = \<lparr>shape = [1], data = [Fin x]\<rparr>"

section \<open>Properties of the merge operators\<close>

lemma fmul_one [simp]: "fmul (Fin 1) x = x"
  by (cases x) auto

lemma fmul_zero_finite [simp]: "finite_flt x \<Longrightarrow> fmul (Fin 0) x = Fin 0"
  by (cases x) auto

lemma fadd_zero_right [simp]: "fadd x (Fin 0) = x"
  by (cases x) auto

lemma fadd_zero_left [simp]: "fadd (Fin 0) x = x"
  by (cases x) auto

lemma map2_fadd_zeros_right:
  "length xs = length ys \<Longrightarrow> list_all finite_flt ys \<Longrightarrow>
   map2 fadd xs (map (fmul (Fin 0)) ys) = xs"
  by (induction xs ys rule: list_induct2) auto

lemma map2_fadd_zeros_left:
  "length xs = length ys \<Longrightarrow> list_all finite_flt xs \<Longrightarrow>
   map2 fadd (map (fmul (Fin 0)) xs) ys = ys"
  by (induction xs ys rule: list_induct2) auto

lemma tensor_eqI: "shape t = s \<Longrightarrow> data t = d \<Longrightarrow> \<lparr>shape = s, data = d\<rparr> = t"
  by (cases t) simp

lemma map_fmul_one [simp]: "map (fmul (Fin 1)) xs = xs"
  by (induction xs) auto

lemma tensor_binop_same_shape:
  "shape a = shape b \<Longrightarrow>
   tensor_binop f a b = Inr \<lparr>shape = shape a, data = map2 f (data a) (data b)\<rparr>"
  by (simp add: tensor_binop_def)

lemma add_difference_zero_finite:
  assumes "wf_tensor a" "wf_tensor d" "shape d = shape a" "all_finite d"
  shows "add_difference a d (Fin 0) = Inr a"
proof -
  have len: "length (data a) = length (data d)"
    using assms by (simp add: wf_tensor_def)
  have "map2 fadd (data a) (map (fmul (Fin 0)) (data d)) = data a"
    using len assms(4) by (simp add: map2_fadd_zeros_right all_finite_def)
  then show ?thesis
    using assms(3) by (simp add: add_difference_def tensor_binop_def scalar_mul_def tensor_eqI)
qed

text \<open>
  Claim C7, as the code has it. With a multiplier of 0 the weighted sum of two well-formed
  tensors of one shape is the first tensor, provided every element of the second is finite;
  with a multiplier of 1 it is the second, provided every element of the first is finite.
  (The element that is multiplied by zero must be finite: zero times an infinity or a NaN
  is NaN.)
\<close>

theorem weighted_sum_endpoints:
  assumes "wf_tensor a" "wf_tensor b" "shape a = shape b"
  shows "(all_finite b \<longrightarrow> weighted_sum a b (Fin 0) = Inr a) \<and>
         (all_finite a \<longrightarrow> weighted_sum a b (Fin 1) = Inr b)"
proof -
  have len: "length (data a) = length (data b)"
    using assms by (simp add: wf_tensor_def)
  have z: "fsub (Fin 1) (Fin 0) = Fin 1" "fsub (Fin 1) (Fin 1) = Fin 0"
    by (simp_all add: fsub_def)
  have "weighted_sum a b (Fin 0) = Inr a" if "all_finite b"
    using that len assms(3)
    by (simp add: weighted_sum_def tensor_binop_def scalar_mul_def z all_finite_def
        map2_fadd_zeros_right tensor_eqI)
  moreover have "weighted_sum a b (Fin 1) = Inr b" if "all_finite a"
    using that len assms(3)
    by (simp add: weighted_sum_def tensor_binop_def scalar_mul_def z all_finite_def
        map2_fadd_zeros_left tensor_eqI)
  ultimately show ?thesis by blast
qed

theorem weighted_sum_endpoints_witness:
  "weighted_sum \<lparr>shape = [2], data = [Fin 3, NaN]\<rparr> \<lparr>shape = [2], data = [Fin 5, Fin 7]\<rparr> (Fin 0)
     = Inr \<lparr>shape = [2], data = [Fin 3, NaN]\<rparr> \<and>
   weighted_sum \<lparr>shape = [2], data = [Fin 5, Fin 7]\<rparr> \<lparr>shape = [2], data = [Fin 3, PInf]\<rparr> (Fin 1)
     = Inr \<lparr>shape = [2], data = [Fin 3, PInf]\<rparr>"
  using weighted_sum_endpoints [of "\<lparr>shape = [2], data = [Fin 3, NaN]\<rparr>" "\<lparr>shape = [2], data = [Fin 5, Fin 7]\<rparr>"]
    weighted_sum_endpoints [of "\<lparr>shape = [2], data = [Fin 5, Fin 7]\<rparr>" "\<lparr>shape = [2], data = [Fin 3, PInf]\<rparr>"]
  by (simp add: wf_tensor_def all_finite_def)

text \<open>
  Claim C7 as stated fails where the second tensor holds an infinity.
\<close>

theorem weighted_sum_zero_counterexample:
  "wf_tensor \<lparr>shape = [1], data = [Fin 1]\<rparr> \<and> wf_tensor \<lparr>shape = [1], data = [PInf]\<rparr> \<and>
   weighted_sum \<lparr>shape = [1], data = [Fin 1]\<rparr> \<lparr>shape = [1], data = [PInf]\<rparr> (Fin 0)
     = Inr \<lparr>shape = [1], data = [NaN]\<rparr> \<and>
   weighted_sum \<lparr>shape = [1], data = [Fin 1]\<rparr> \<lparr>shape = [1], data = [PInf]\<rparr> (Fin 0)
     \<noteq> Inr \<lparr>shape = [1], data = [Fin 1]\<rparr>"
  by (simp add: weighted_sum_def tensor_binop_def scalar_mul_def fsub_def wf_tensor_def)

text \<open>
  Claim C8, as the code has it. For well-formed tensors \<open>a\<close>, \<open>b\<close>, \<open>c\<close> of one shape the
  difference of \<open>b\<close> and \<open>c\<close> is computed, and adding it to \<open>a\<close> with a multiplier of 0 gives
  \<open>a\<close> whenever every element of the difference is finite.
\<close>

theorem add_difference_zero:
  assumes "wf_tensor a" "wf_tensor b" "wf_tensor c" "shape a = shape b" "shape b = shape c"
  shows "\<exists>d. get_difference b c = Inr d \<and>
             (all_finite d \<longrightarrow> add_difference a d (Fin 0) = Inr a)"
proof -
  let ?d = "\<lparr>shape = shape b, data = map2 fsub (data b) (data c)\<rparr>"
  have d: "get_difference b c = Inr ?d"
    using assms(5) by (simp add: get_difference_def tensor_binop_same_shape)
  have "wf_tensor ?d"
    using assms(2,3,5) by (simp add: wf_tensor_def)
  then have "add_difference a ?d (Fin 0) = Inr a" if "all_finite ?d"
    using that assms(1,4) by (intro add_difference_zero_finite) simp_all
  with d show ?thesis by blast
qed

theorem add_difference_zero_witness:
  "get_difference \<lparr>shape = [2], data = [Fin 5, Fin 7]\<rparr> \<lparr>shape = [2], data = [Fin 1, Fin 2]\<rparr>
     = Inr \<lparr>shape = [2], data = [Fin 4, Fin 5]\<rparr> \<and>
   add_difference \<lparr>shape = [2], data = [NaN, Fin 9]\<rparr> \<lparr>shape = [2], data = [Fin 4, Fin 5]\<rparr> (Fin 0)
     = Inr \<lparr>shape = [2], data = [NaN, Fin 9]\<rparr>"
  using add_difference_zero [of "\<lparr>shape = [2], data = [NaN, Fin 9]\<rparr>"
      "\<lparr>shape = [2], data = [Fin 5, Fin 7]\<rparr>" "\<lparr>shape = [2], data = [Fin 1, Fin 2]\<rparr>"]
  by (simp add: wf_tensor_def all_finite_def get_difference_def tensor_binop_def fsub_def)

text \<open>
  Claim C8 as stated fails where the difference holds an infinity.
\<close>

theorem add_difference_zero_counterexample:
  "get_difference \<lparr>shape = [1], data = [PInf]\<rparr> \<lparr>shape = [1], data = [Fin 2]\<rparr>
     = Inr \<lparr>shape = [1], data = [PInf]\<rparr> \<and>
   add_difference \<lparr>shape = [1], data = [Fin 1]\<rparr> \<lparr>shape = [1], data = [PInf]\<rparr> (Fin 0)
     = Inr \<lparr>shape = [1], data = [NaN]\<rparr> \<and>
   add_difference \<lparr>shape = [1], data = [Fin 1]\<rparr> \<lparr>shape = [1], data = [PInf]\<rparr> (Fin 0)
     \<noteq> Inr \<lparr>shape = [1], data = [Fin 1]\<rparr>"
  by (simp add: add_difference_def get_difference_def tensor_binop_def scalar_mul_def fsub_def)

section \<open>Dictionaries and loops\<close>

lemma pop_matching_fold:
  "fold (\<lambda>key t. if p key then AList.delete key t else t) ks th
     = filter (\<lambda>kv. \<not> (p (fst kv) \<and> fst kv \<in> set ks)) th"
proof (induction ks arbitrary: th)
  case Nil
  show ?case by simp
next
  case (Cons k ks)
  show ?case
  proof (cases "p k")
    case True
    then show ?thesis
      by (simp add: Cons.IH AList.delete_eq case_prod_beta) (rule filter_cong, auto)
  next
    case False
    then show ?thesis
      by (simp add: Cons.IH) (rule filter_cong, auto)
  qed
qed

lemma pop_matching_filter: "pop_matching p th = filter (\<lambda>kv. \<not> p (fst kv)) th"
  unfolding pop_matching_def pop_matching_fold
  by (rule filter_cong) auto

lemma has_key_iff: "has_key th k \<longleftrightarrow> k \<in> fst ` set th"
  by (simp add: has_key_def map_of_eq_None_iff)

lemma has_key_pop_matching: "has_key (pop_matching p th) k \<longleftrightarrow> has_key th k \<and> \<not> p k"
  by (auto simp: has_key_iff pop_matching_filter)

lemma map_of_pop_matching:
  "map_of (pop_matching p th) k = (if p k then None else map_of th k)"
  unfolding pop_matching_filter
  by (induction th) auto

lemma keys_transform_matching [simp]: "map fst (transform_matching p f th) = map fst th"
  by (induction th) (auto simp: transform_matching_def)

lemma has_key_update: "has_key (AList.update k v th) k' \<longleftrightarrow> k' = k \<or> has_key th k'"
  by (auto simp: has_key_def update_conv')

lemma keys_update_present: "has_key th k \<Longrightarrow> map fst (AList.update k v th) = map fst th"
  by (simp add: has_key_iff update_keys)

lemma for_each_invariant:
  assumes "for_each body xs s = Inr s'" and "I s"
    and "\<And>x t t'. x \<in> set xs \<Longrightarrow> I t \<Longrightarrow> body x t = Inr t' \<Longrightarrow> I t'"
  shows "I s'"
  using assms
proof (induction xs arbitrary: s)
  case Nil
  then show ?case by simp
next
  case (Cons x xs)
  from Cons.prems(1) obtain s1 where s1: "body x s = Inr s1" "for_each body xs s1 = Inr s'"
    by (auto split: sum.splits)
  have "I s1" using Cons.prems(2,3) s1(1) by auto
  then show ?case using Cons.IH [OF s1(2)] Cons.prems(3) by auto
qed

text \<open>The step of a distinct loop at one element: the state before it and after it.\<close>

lemma for_each_visit:
  assumes "for_each body xs s = Inr s'" and "k \<in> set xs" and "distinct xs"
    and "\<And>x t t'. x \<noteq> k \<Longrightarrow> body x t = Inr t' \<Longrightarrow> obs t' = obs t"
  shows "\<exists>t t'. body k t = Inr t' \<and> obs t = obs s \<and> obs s' = obs t'"
  using assms(1-3)
proof (induction xs arbitrary: s)
  case Nil
  then show ?case by simp
next
  case (Cons x xs)
  from Cons.prems(1) obtain s1 where s1: "body x s = Inr s1" "for_each body xs s1 = Inr s'"
    by (auto split: sum.splits)
  show ?case
  proof (cases "x = k")
    case True
    then have "k \<notin> set xs" using Cons.prems(3) by simp
    then have "obs s' = obs s1"
      using for_each_invariant [OF s1(2), where I = "\<lambda>t. obs t = obs s1"] assms(4)
      by (metis)
    with s1(1) True show ?thesis by blast
  next
    case False
    then have "k \<in> set xs" "distinct xs" using Cons.prems by auto
    from Cons.IH [OF s1(2) this] obtain t t' where
      "body k t = Inr t'" "obs t = obs s1" "obs s' = obs t'" by blast
    moreover have "obs s1 = obs s" using assms(4) [OF False s1(1)] .
    ultimately show ?thesis by metis
  qed
qed

lemma for_each_fails:
  assumes "k \<in> set xs" and "distinct xs"
    and "\<And>x t t'. x \<noteq> k \<Longrightarrow> body x t = Inr t' \<Longrightarrow> obs t' = obs t"
    and "\<And>t. obs t = obs s \<Longrightarrow> \<exists>e. body k t = Inl e"
  shows "\<exists>e. for_each body xs s = Inl e"
proof (cases "for_each body xs s")
  case (Inl e)
  then show ?thesis by blast
next
  case (Inr s')
  from for_each_visit [OF Inr assms(1,2), of obs] assms(3)
  obtain t t' where "body k t = Inr t'" "obs t = obs s" by blast
  with assms(4) show ?thesis by fastforce
qed

section \<open>The merge of A and B\<close>

lemma getitem_Inr: "getitem th k = Inr v \<longleftrightarrow> map_of th k = Some v"
  by (simp add: getitem_def split: option.splits)

lemma getitem_has_key: "getitem th k = Inr v \<Longrightarrow> has_key th k"
  by (simp add: getitem_Inr has_key_def)

lemma merge_a_b_key_cases:
  assumes "merge_a_b_key func2 mult theta_1 key st = Inr st'"
  shows "st' = st \<or>
         (has_key theta_1 key \<and> contains ''model'' key \<and> key \<notin> set checkpoint_dict_skip_on_merge \<and>
          (\<exists>a b v i p. map_of (theta_0 st) key = Some a \<and> map_of theta_1 key = Some b \<and>
             merge_pair func2 mult a b
               (result_is_inpainting_model st, result_is_instruct_pix2pix_model st) = Inr (v, i, p) \<and>
             theta_0 st' = AList.update key v (theta_0 st)))"
  using assms unfolding merge_a_b_key_def
  by (auto split: if_splits sum.splits prod.splits simp: getitem_Inr)

lemma merge_a_b_key_merged:
  assumes "merge_a_b_key func2 mult theta_1 key st = Inr st'"
    and "has_key theta_1 key" "contains ''model'' key" "key \<notin> set checkpoint_dict_skip_on_merge"
  shows "\<exists>a b v i p. map_of (theta_0 st) key = Some a \<and> map_of theta_1 key = Some b \<and>
             merge_pair func2 mult a b
               (result_is_inpainting_model st, result_is_instruct_pix2pix_model st) = Inr (v, i, p) \<and>
             theta_0 st' = AList.update key v (theta_0 st)"
  using assms unfolding merge_a_b_key_def
  by (auto split: if_splits sum.splits prod.splits simp: getitem_Inr)

lemma merge_a_b_key_other:
  assumes "merge_a_b_key func2 mult theta_1 x st = Inr st'" and "x \<noteq> k"
  shows "map_of (theta_0 st') k = map_of (theta_0 st) k"
  using merge_a_b_key_cases [OF assms(1)] assms(2)
  by (auto simp: update_conv')

lemma merge_a_b_key_keys:
  assumes "merge_a_b_key func2 mult theta_1 x st = Inr st'"
  shows "map fst (theta_0 st') = map fst (theta_0 st)"
  using merge_a_b_key_cases [OF assms]
  by (auto simp: keys_update_present has_key_def)

lemma merge_a_b_key_unmerged:
  assumes "merge_a_b_key func2 mult theta_1 x st = Inr st'"
    and "\<not> (has_key theta_1 k \<and> contains ''model'' k \<and> k \<notin> set checkpoint_dict_skip_on_merge)"
  shows "map_of (theta_0 st') k = map_of (theta_0 st) k"
proof (cases "x = k")
  case True
  then show ?thesis using merge_a_b_key_cases [OF assms(1)] assms(2) by auto
next
  case False
  then show ?thesis using merge_a_b_key_other [OF assms(1)] by simp
qed

text \<open>
  Claim C1, as the code has it. The loop over the keys of A leaves the set of keys as it is.
  It merges exactly the keys that \<^verbatim>\<open>theta_1\<close> holds too, that contain the substring \<^verbatim>\<open>model\<close>
  and that are not the position ids: every other key of A keeps the value it has in A, and,
  on a dictionary A, each of those keys gets the value that \<^const>\<open>merge_pair\<close> computes
  from the value in A and the value in \<^verbatim>\<open>theta_1\<close>. The test is the substring, not the class
  of the key: a key of the VAE or of a text encoder that contains \<^verbatim>\<open>model\<close> is merged.
\<close>

theorem merge_a_b_restriction:
  assumes "merge_a_b func2 mult th0 theta_1 = Inr st"
  shows "map fst (theta_0 st) = map fst th0 \<and>
         (\<forall>key. \<not> (has_key theta_1 key \<and> contains ''model'' key
                      \<and> key \<notin> set checkpoint_dict_skip_on_merge)
                \<longrightarrow> map_of (theta_0 st) key = map_of th0 key) \<and>
         (distinct (map fst th0) \<longrightarrow>
            (\<forall>key a b. map_of th0 key = Some a \<and> map_of theta_1 key = Some b
                  \<and> contains ''model'' key \<and> key \<notin> set checkpoint_dict_skip_on_merge
               \<longrightarrow> (\<exists>flags v i p. merge_pair func2 mult a b flags = Inr (v, i, p)
                      \<and> map_of (theta_0 st) key = Some v)))"
proof (intro conjI allI impI)
  let ?body = "merge_a_b_key func2 mult theta_1"
  let ?s0 = "\<lparr>theta_0 = th0, result_is_inpainting_model = False,
               result_is_instruct_pix2pix_model = False\<rparr>"
  have run: "for_each ?body (map fst th0) ?s0 = Inr st"
    using assms by (simp add: merge_a_b_def)
  show "map fst (theta_0 st) = map fst th0"
    using for_each_invariant [OF run, where I = "\<lambda>t. map fst (theta_0 t) = map fst th0"]
    by (simp add: merge_a_b_key_keys)
  show "map_of (theta_0 st) key = map_of th0 key"
    if "\<not> (has_key theta_1 key \<and> contains ''model'' key
            \<and> key \<notin> set checkpoint_dict_skip_on_merge)" for key
    using for_each_invariant [OF run, where I = "\<lambda>t. map_of (theta_0 t) key = map_of th0 key"]
      merge_a_b_key_unmerged that
    by simp
  show "\<exists>flags v i p. merge_pair func2 mult a b flags = Inr (v, i, p)
          \<and> map_of (theta_0 st) key = Some v"
    if d: "distinct (map fst th0)"
      and k: "map_of th0 key = Some a \<and> map_of theta_1 key = Some b
              \<and> contains ''model'' key \<and> key \<notin> set checkpoint_dict_skip_on_merge"
    for key a b
  proof -
    have "key \<in> set (map fst th0)"
      using k by (metis map_of_eq_None_iff option.distinct(1) set_map)
    from for_each_visit [OF run this d, of "\<lambda>t. map_of (theta_0 t) key"]
    obtain t t' where t: "?body key t = Inr t'" "map_of (theta_0 t) key = map_of th0 key"
      "map_of (theta_0 st) key = map_of (theta_0 t') key"
      using merge_a_b_key_other by auto
    have "has_key theta_1 key" using k by (simp add: has_key_def)
    from merge_a_b_key_merged [OF t(1) this] k
    obtain v i p where
      "merge_pair func2 mult a b
         (result_is_inpainting_model t, result_is_instruct_pix2pix_model t) = Inr (v, i, p)"
      "theta_0 t' = AList.update key v (theta_0 t)"
      using t(2) by auto
    moreover from this(2) have "map_of (theta_0 st) key = Some v"
      using t(3) by (simp add: update_conv')
    ultimately show ?thesis by blast
  qed
qed

theorem merge_a_b_restriction_witness:
  "merge_a_b weighted_sum (Fin (1 / 2))
     [(''model.diffusion_model.w'', scalar 1), (''vae.w'', scalar 1)]
     [(''model.diffusion_model.w'', scalar 3), (''vae.w'', scalar 3)]
   = Inr \<lparr>theta_0 = [(''model.diffusion_model.w'', scalar 2), (''vae.w'', scalar 1)],
          result_is_inpainting_model = False, result_is_instruct_pix2pix_model = False\<rparr> \<and>
   \<not> contains ''model'' ''vae.w'' \<and>
   map_of [(''model.diffusion_model.w'', scalar 2), (''vae.w'', scalar 1)] ''vae.w''
     = map_of [(''model.diffusion_model.w'', scalar 1), (''vae.w'', scalar 1)] ''vae.w'' \<and>
   (\<exists>flags v i p.
      merge_pair weighted_sum (Fin (1 / 2)) (scalar 1) (scalar 3) flags = Inr (v, i, p) \<and>
      map_of [(''model.diffusion_model.w'', scalar 2), (''vae.w'', scalar 1)]
        ''model.diffusion_model.w'' = Some v)"
proof -
  let ?A = "[(''model.diffusion_model.w'', scalar 1), (''vae.w'', scalar 1)]"
  let ?B = "[(''model.diffusion_model.w'', scalar 3), (''vae.w'', scalar 3)]"
  let ?st = "\<lparr>theta_0 = [(''model.diffusion_model.w'', scalar 2), (''vae.w'', scalar 1)],
          result_is_inpainting_model = False, result_is_instruct_pix2pix_model = False\<rparr>"
  have run: "merge_a_b weighted_sum (Fin (1 / 2)) ?A ?B = Inr ?st"
    by code_simp
  have no: "\<not> contains ''model'' ''vae.w''"
    by code_simp
  have d: "distinct (map fst ?A)"
    by simp
  have k: "map_of ?A ''model.diffusion_model.w'' = Some (scalar 1)
      \<and> map_of ?B ''model.diffusion_model.w'' = Some (scalar 3)
      \<and> contains ''model'' ''model.diffusion_model.w''
      \<and> ''model.diffusion_model.w'' \<notin> set checkpoint_dict_skip_on_merge"
    by code_simp
  note r = merge_a_b_restriction [OF run]
  from r no have "map_of (theta_0 ?st) ''vae.w'' = map_of ?A ''vae.w''"
    by blast
  moreover from r d k have "\<exists>flags v i p.
      merge_pair weighted_sum (Fin (1 / 2)) (scalar 1) (scalar 3) flags = Inr (v, i, p) \<and>
      map_of (theta_0 ?st) ''model.diffusion_model.w'' = Some v"
    by blast
  ultimately show ?thesis
    using run no by simp
qed

text \<open>
  Claim C1 as stated fails: \<^verbatim>\<open>first_stage_model.w\<close> is a key of the VAE, and with every save
  policy at "No change" the run blends its value 1 in A with its value 3 in B.
\<close>

theorem vae_key_blended_counterexample:
  "is_vae_key ''first_stage_model.w'' \<and>
   map_of [(''first_stage_model.w'', scalar 1)] ''first_stage_model.w'' = Some (scalar 1) \<and>
   merge_a_b weighted_sum (Fin (1 / 2))
     [(''first_stage_model.w'', scalar 1)] [(''first_stage_model.w'', scalar 3)]
   = Inr \<lparr>theta_0 = [(''first_stage_model.w'', scalar 2)],
          result_is_inpainting_model = False, result_is_instruct_pix2pix_model = False\<rparr> \<and>
   run_modelmerger
     (example_env [(''first_stage_model.w'', scalar 1)] [(''first_stage_model.w'', scalar 3)]
        [] [] matches_nothing)
     (example_request ''Weighted sum'' ''No change'' ''None'' [])
   = Inr (Saved [(''first_stage_model.w'', scalar 2)] False False) \<and>
   scalar 2 \<noteq> scalar 1"
  by code_simp

section \<open>Channel mismatch: the illegal cases\<close>

lemma shape_at1_differ:
  assumes "shape_at1 a = Inr m" "shape_at1 b = Inr n" "m \<noteq> n"
  shows "shape a \<noteq> shape b"
  using assms by (auto simp: shape_at1_def split: list.splits)

lemma merge_pair_inpainting_secondary:
  assumes "take 1 (shape a) @ drop 2 (shape a) = take 1 (shape b) @ drop 2 (shape b)"
    and "shape_at1 a = Inr 4" "shape_at1 b = Inr 9"
  shows "merge_pair func2 mult a b flags = Inl (RuntimeError inpainting_message)"
proof -
  have "shape a \<noteq> shape b"
    using shape_at1_differ [OF assms(2,3)] by simp
  then show ?thesis
    using assms by (simp add: merge_pair_def channels_are_def)
qed

lemma merge_pair_instruct_pix2pix_secondary:
  assumes "take 1 (shape a) @ drop 2 (shape a) = take 1 (shape b) @ drop 2 (shape b)"
    and "shape_at1 a = Inr 4" "shape_at1 b = Inr 8"
  shows "merge_pair func2 mult a b flags = Inl (RuntimeError instruct_pix2pix_message)"
proof -
  have "shape a \<noteq> shape b"
    using shape_at1_differ [OF assms(2,3)] by simp
  then show ?thesis
    using assms by (simp add: merge_pair_def channels_are_def)
qed

lemma merge_a_b_key_fails:
  assumes "map_of (theta_0 st) key = Some a" "map_of theta_1 key = Some b"
    and "contains ''model'' key" "key \<notin> set checkpoint_dict_skip_on_merge"
    and "\<And>flags. merge_pair func2 mult a b flags = Inl e"
  shows "merge_a_b_key func2 mult theta_1 key st = Inl e"
  using assms by (simp add: merge_a_b_key_def has_key_def getitem_def)

lemma merge_a_b_fails:
  assumes "distinct (map fst th0)" "map_of th0 key = Some a" "map_of theta_1 key = Some b"
    and "contains ''model'' key" "key \<notin> set checkpoint_dict_skip_on_merge"
    and "\<And>flags. merge_pair func2 mult a b flags = Inl e"
  shows "\<exists>e'. merge_a_b func2 mult th0 theta_1 = Inl e'"
proof -
  let ?s0 = "\<lparr>theta_0 = th0, result_is_inpainting_model = False,
               result_is_instruct_pix2pix_model = False\<rparr>"
  have "key \<in> set (map fst th0)"
    using assms(2) by (metis map_of_eq_None_iff option.distinct(1) set_map)
  then have "\<exists>e'. for_each (merge_a_b_key func2 mult theta_1) (map fst th0) ?s0 = Inl e'"
  proof (rule for_each_fails [where obs = "\<lambda>t. map_of (theta_0 t) key"])
    show "distinct (map fst th0)" by (rule assms(1))
    show "map_of (theta_0 t') key = map_of (theta_0 t) key"
      if "x \<noteq> key" "merge_a_b_key func2 mult theta_1 x t = Inr t'" for x t t'
      using merge_a_b_key_other [OF that(2,1)] .
    show "\<exists>e'. merge_a_b_key func2 mult theta_1 key t = Inl e'"
      if "map_of (theta_0 t) key = map_of (theta_0 ?s0) key" for t
      using merge_a_b_key_fails [OF _ assms(3-6), of t] that assms(2) by auto
  qed
  then show ?thesis by (simp add: merge_a_b_def)
qed

lemma merge_branch_fails:
  assumes "merge_a_b func2 (multiplier rq) th0 theta_1 = Inl e" "theta_1 \<noteq> []"
  shows "merge_branch ev rq (Some (func2, theta_1)) th0 = Inl e"
  using assms by (simp add: merge_branch_def merge_step_def)

text \<open>
  Claim C5. Let a key be merged (A and \<^verbatim>\<open>theta_1\<close> hold it, it contains \<^verbatim>\<open>model\<close> and is not
  the position ids), with tensors that agree in every dimension but dimension 1, where A
  has 4 channels. If B has 9 channels the step raises the error that the inpainting model
  must be A; if B has 8 it raises the error that the instruct-pix2pix model must be A. In
  both cases the loop over the keys of the dictionary A ends in an error, and so does the
  merge branch, which therefore hands no map to the save.
\<close>

theorem channel_mismatch_fails:
  assumes "distinct (map fst th0)"
    and "map_of th0 key = Some a" "map_of theta_1 key = Some b"
    and "contains ''model'' key" "key \<notin> set checkpoint_dict_skip_on_merge"
    and "take 1 (shape a) @ drop 2 (shape a) = take 1 (shape b) @ drop 2 (shape b)"
    and "shape_at1 a = Inr 4"
  shows "(shape_at1 b = Inr 9 \<longrightarrow>
            merge_pair func2 (multiplier rq) a b flags = Inl (RuntimeError inpainting_message)) \<and>
         (shape_at1 b = Inr 8 \<longrightarrow>
            merge_pair func2 (multiplier rq) a b flags
              = Inl (RuntimeError instruct_pix2pix_message)) \<and>
         (shape_at1 b = Inr 9 \<or> shape_at1 b = Inr 8 \<longrightarrow>
            (\<exists>e. merge_a_b func2 (multiplier rq) th0 theta_1 = Inl e) \<and>
            (\<exists>e. merge_branch ev rq (Some (func2, theta_1)) th0 = Inl e))"
proof (intro conjI impI)
  show "merge_pair func2 (multiplier rq) a b flags = Inl (RuntimeError inpainting_message)"
    if "shape_at1 b = Inr 9"
    using merge_pair_inpainting_secondary [OF assms(6,7) that] .
  show "merge_pair func2 (multiplier rq) a b flags = Inl (RuntimeError instruct_pix2pix_message)"
    if "shape_at1 b = Inr 8"
    using merge_pair_instruct_pix2pix_secondary [OF assms(6,7) that] .
  assume b: "shape_at1 b = Inr 9 \<or> shape_at1 b = Inr 8"
  then obtain e where "\<And>flags. merge_pair func2 (multiplier rq) a b flags = Inl e"
    using merge_pair_inpainting_secondary [OF assms(6,7)]
      merge_pair_instruct_pix2pix_secondary [OF assms(6,7)] by blast
  from merge_a_b_fails [OF assms(1-5) this]
  show l: "\<exists>e. merge_a_b func2 (multiplier rq) th0 theta_1 = Inl e" .
  have "theta_1 \<noteq> []" using assms(3) by auto
  with l show "\<exists>e. merge_branch ev rq (Some (func2, theta_1)) th0 = Inl e"
    using merge_branch_fails by blast
qed

theorem channel_mismatch_fails_witness:
  "merge_pair weighted_sum (Fin (1 / 2))
     \<lparr>shape = [1, 4, 1, 1], data = [Fin 1, Fin 2, Fin 3, Fin 4]\<rparr>
     \<lparr>shape = [1, 9, 1, 1], data = replicate 9 (Fin 0)\<rparr> (False, False)
   = Inl (RuntimeError inpainting_message) \<and>
   (\<exists>e. merge_a_b weighted_sum (Fin (1 / 2))
      [(''model.diffusion_model.input_blocks.0.0.weight'',
        \<lparr>shape = [1, 4, 1, 1], data = [Fin 1, Fin 2, Fin 3, Fin 4]\<rparr>)]
      [(''model.diffusion_model.input_blocks.0.0.weight'',
        \<lparr>shape = [1, 9, 1, 1], data = replicate 9 (Fin 0)\<rparr>)] = Inl e)"
proof -
  let ?k = "''model.diffusion_model.input_blocks.0.0.weight''"
  let ?a = "\<lparr>shape = [1, 4, 1, 1], data = [Fin 1, Fin 2, Fin 3, Fin 4]\<rparr>"
  let ?b = "\<lparr>shape = [1, 9, 1, 1], data = replicate 9 (Fin 0)\<rparr>"
  let ?rq = "example_request ''Weighted sum'' ''No change'' ''None'' []"
  have 1: "distinct (map fst [(?k, ?a)])" by simp
  have 2: "map_of [(?k, ?a)] ?k = Some ?a" "map_of [(?k, ?b)] ?k = Some ?b" by simp_all
  have 3: "contains ''model'' ?k" "?k \<notin> set checkpoint_dict_skip_on_merge" by code_simp+
  have 4: "take 1 (shape ?a) @ drop 2 (shape ?a) = take 1 (shape ?b) @ drop 2 (shape ?b)"
    by simp
  have 5: "shape_at1 ?a = Inr 4" "shape_at1 ?b = Inr 9" by (simp_all add: shape_at1_def)
  have m: "multiplier ?rq = Fin (1 / 2)" by (simp add: example_request_def)
  from channel_mismatch_fails [OF 1 2 3 4 5(1), where rq = ?rq and ?func2.0 = weighted_sum
      and flags = "(False, False)" and ev = "example_env [] [] [] [] matches_nothing"] 5(2) m
  show ?thesis by simp
qed

section \<open>Keys that only one dictionary holds\<close>

lemma merge_b_c_key_skipped:
  assumes "\<not> contains ''model'' key \<or> key \<in> set checkpoint_dict_skip_on_merge"
  shows "merge_b_c_key func1 theta_2 key theta_1 = Inr theta_1"
  using assms by (auto simp: merge_b_c_key_def)

lemma merge_b_c_key_update:
  assumes "merge_b_c_key func1 theta_2 key theta_1 = Inr d"
  shows "d = theta_1 \<or> (\<exists>v. has_key theta_1 key \<and> d = AList.update key v theta_1)"
  using assms unfolding merge_b_c_key_def
  by (auto split: if_splits sum.splits dest: getitem_has_key)

lemma merge_b_c_key_missing:
  assumes "merge_b_c_key func1 theta_2 key theta_1 = Inr d"
    and "map_of theta_1 key = Some b" "contains ''model'' key"
    and "key \<notin> set checkpoint_dict_skip_on_merge" "\<not> has_key theta_2 key"
  shows "d = AList.update key (zeros_like b) theta_1"
  using assms by (simp add: merge_b_c_key_def getitem_def)

lemma merge_b_c_key_other:
  assumes "merge_b_c_key func1 theta_2 x theta_1 = Inr d" and "x \<noteq> k"
  shows "map_of d k = map_of theta_1 k"
  using merge_b_c_key_update [OF assms(1)] assms(2)
  by (auto simp: update_conv')

lemma merge_b_c_key_keys:
  assumes "merge_b_c_key func1 theta_2 x theta_1 = Inr d"
  shows "map fst d = map fst theta_1"
  using merge_b_c_key_update [OF assms]
  by (auto simp: keys_update_present)

lemma merge_b_c_key_unmerged:
  assumes "merge_b_c_key func1 theta_2 x theta_1 = Inr d"
    and "\<not> contains ''model'' k \<or> k \<in> set checkpoint_dict_skip_on_merge"
  shows "map_of d k = map_of theta_1 k"
proof (cases "x = k")
  case True
  then show ?thesis
    using assms(1) merge_b_c_key_skipped [OF assms(2), of func1 theta_2 theta_1] by simp
next
  case False
  then show ?thesis using merge_b_c_key_other [OF assms(1)] by simp
qed

text \<open>
  Claim C2, as the code has it. In the merge of A with \<^verbatim>\<open>theta_1\<close> the result has the keys
  of A, so a key that only \<^verbatim>\<open>theta_1\<close> holds is not in it, and a key that only A holds keeps
  its value. In the merge of B and C the result has the keys of B, so a key that only C
  holds is not in it; a key of B without \<^verbatim>\<open>model\<close> in it, or the position ids, keeps its
  value; and a key of the dictionary B with \<^verbatim>\<open>model\<close> in it that C does not hold gets a
  tensor of zeros of its shape, not its own value.
\<close>

theorem one_sided_keys:
  "(merge_a_b func2 mult th0 theta_1 = Inr st \<longrightarrow>
      map fst (theta_0 st) = map fst th0 \<and>
      (\<forall>key. \<not> has_key theta_1 key \<longrightarrow> map_of (theta_0 st) key = map_of th0 key)) \<and>
   (merge_b_c func1 theta_b theta_c = Inr d \<longrightarrow>
      map fst d = map fst theta_b \<and>
      (\<forall>key. \<not> contains ''model'' key \<or> key \<in> set checkpoint_dict_skip_on_merge
             \<longrightarrow> map_of d key = map_of theta_b key) \<and>
      (distinct (map fst theta_b) \<longrightarrow>
         (\<forall>key b. map_of theta_b key = Some b \<and> contains ''model'' key
               \<and> key \<notin> set checkpoint_dict_skip_on_merge \<and> \<not> has_key theta_c key
            \<longrightarrow> map_of d key = Some (zeros_like b))))"
proof (intro conjI impI allI)
  let ?s0 = "\<lparr>theta_0 = th0, result_is_inpainting_model = False,
               result_is_instruct_pix2pix_model = False\<rparr>"
  assume "merge_a_b func2 mult th0 theta_1 = Inr st"
  then have run: "for_each (merge_a_b_key func2 mult theta_1) (map fst th0) ?s0 = Inr st"
    by (simp add: merge_a_b_def)
  show "map fst (theta_0 st) = map fst th0"
    using for_each_invariant [OF run, where I = "\<lambda>t. map fst (theta_0 t) = map fst th0"]
    by (simp add: merge_a_b_key_keys)
  show "map_of (theta_0 st) key = map_of th0 key" if "\<not> has_key theta_1 key" for key
    using for_each_invariant [OF run, where I = "\<lambda>t. map_of (theta_0 t) key = map_of th0 key"]
      merge_a_b_key_unmerged that
    by simp
next
  assume "merge_b_c func1 theta_b theta_c = Inr d"
  then have run: "for_each (merge_b_c_key func1 theta_c) (map fst theta_b) theta_b = Inr d"
    by (simp add: merge_b_c_def)
  show "map fst d = map fst theta_b"
    using for_each_invariant [OF run, where I = "\<lambda>t. map fst t = map fst theta_b"]
    by (simp add: merge_b_c_key_keys)
  show "map_of d key = map_of theta_b key"
    if "\<not> contains ''model'' key \<or> key \<in> set checkpoint_dict_skip_on_merge" for key
    using for_each_invariant [OF run, where I = "\<lambda>t. map_of t key = map_of theta_b key"]
      merge_b_c_key_unmerged that
    by simp
  show "map_of d key = Some (zeros_like b)"
    if dist: "distinct (map fst theta_b)"
      and k: "map_of theta_b key = Some b \<and> contains ''model'' key
              \<and> key \<notin> set checkpoint_dict_skip_on_merge \<and> \<not> has_key theta_c key"
    for key b
  proof -
    have "key \<in> set (map fst theta_b)"
      using k by (metis map_of_eq_None_iff option.distinct(1) set_map)
    from for_each_visit [OF run this dist, of "\<lambda>t. map_of t key"]
    obtain t t' where t: "merge_b_c_key func1 theta_c key t = Inr t'"
      "map_of t key = map_of theta_b key" "map_of d key = map_of t' key"
      using merge_b_c_key_other by auto
    have "t' = AList.update key (zeros_like b) t"
      using merge_b_c_key_missing [OF t(1)] t(2) k by simp
    then show ?thesis using t(3) by (simp add: update_conv')
  qed
qed

theorem one_sided_keys_witness:
  "merge_a_b weighted_sum (Fin (1 / 2))
     [(''model.a'', scalar 1), (''model.w'', scalar 1)]
     [(''model.w'', scalar 3), (''model.b'', scalar 3)]
   = Inr \<lparr>theta_0 = [(''model.a'', scalar 1), (''model.w'', scalar 2)],
          result_is_inpainting_model = False, result_is_instruct_pix2pix_model = False\<rparr> \<and>
   \<not> has_key [(''model.w'', scalar 3), (''model.b'', scalar 3)] ''model.a'' \<and>
   map_of [(''model.a'', scalar 1), (''model.w'', scalar 2)] ''model.a''
     = map_of [(''model.a'', scalar 1), (''model.w'', scalar 1)] ''model.a'' \<and>
   merge_b_c get_difference [(''model.w'', scalar 5), (''other'', scalar 5)] [(''model.c'', scalar 1)]
   = Inr [(''model.w'', scalar 0), (''other'', scalar 5)] \<and>
   map_of [(''model.w'', scalar 0), (''other'', scalar 5)] ''other''
     = map_of [(''model.w'', scalar 5), (''other'', scalar 5)] ''other'' \<and>
   map_of [(''model.w'', scalar 0), (''other'', scalar 5)] ''model.w''
     = Some (zeros_like (scalar 5))"
proof -
  let ?A = "[(''model.a'', scalar 1), (''model.w'', scalar 1)]"
  let ?B = "[(''model.w'', scalar 3), (''model.b'', scalar 3)]"
  let ?st = "\<lparr>theta_0 = [(''model.a'', scalar 1), (''model.w'', scalar 2)],
          result_is_inpainting_model = False, result_is_instruct_pix2pix_model = False\<rparr>"
  let ?B' = "[(''model.w'', scalar 5), (''other'', scalar 5)]"
  let ?C = "[(''model.c'', scalar 1)]"
  let ?d = "[(''model.w'', scalar 0), (''other'', scalar 5)]"
  have ab: "merge_a_b weighted_sum (Fin (1 / 2)) ?A ?B = Inr ?st"
    by code_simp
  have bc: "merge_b_c get_difference ?B' ?C = Inr ?d"
    by code_simp
  have h1: "\<not> has_key ?B ''model.a''"
    by (simp add: has_key_def)
  have h2: "\<not> contains ''model'' ''other''"
    by code_simp
  have h3: "distinct (map fst ?B')"
    by simp
  have h4: "map_of ?B' ''model.w'' = Some (scalar 5) \<and> contains ''model'' ''model.w''
      \<and> ''model.w'' \<notin> set checkpoint_dict_skip_on_merge \<and> \<not> has_key ?C ''model.w''"
    by code_simp
  note r = one_sided_keys [where ?func2.0 = weighted_sum and mult = "Fin (1 / 2)" and ?th0.0 = ?A
      and ?theta_1.0 = ?B and st = ?st and ?func1.0 = get_difference and theta_b = ?B'
      and theta_c = ?C and d = ?d]
  from r ab h1 have 1: "map_of (theta_0 ?st) ''model.a'' = map_of ?A ''model.a''"
    by blast
  from r bc h2 have 2: "map_of ?d ''other'' = map_of ?B' ''other''"
    by blast
  from r bc h3 h4 have 3: "map_of ?d ''model.w'' = Some (zeros_like (scalar 5))"
    by blast
  from ab bc h1 1 2 3 show ?thesis
    by simp
qed

text \<open>
  Claim C2 as stated fails: the key \<^verbatim>\<open>model.w\<close> is in B and not in C, and the difference
  pass gives it the value 0, where the difference of 5 and a tensor of zeros is 5; the run
  then adds nothing to A at this key.
\<close>

theorem missing_in_c_counterexample:
  "merge_b_c get_difference [(''model.w'', scalar 5)] [] = Inr [(''model.w'', scalar 0)] \<and>
   get_difference (scalar 5) (zeros_like (scalar 5)) = Inr (scalar 5) \<and>
   scalar 0 \<noteq> scalar 5 \<and>
   run_modelmerger
     (example_env [(''model.w'', scalar 1)] [(''model.w'', scalar 5)] [] [] matches_nothing)
     (example_request ''Add difference'' ''No change'' ''None'' [])
   = Inr (Saved [(''model.w'', scalar 1)] False False)"
  by code_simp

section \<open>The strip at load\<close>

lemma match_marker_append:
  "match_marker (xs @ ys) prev s \<longleftrightarrow> match_marker xs prev s \<or> match_marker ys prev s"
  by (auto simp: match_marker_def list_ex_iff)

lemma search_marker_from_append:
  "search_marker_from (xs @ ys) prev s
     \<longleftrightarrow> search_marker_from xs prev s \<or> search_marker_from ys prev s"
  by (induction s arbitrary: prev) (auto simp: match_marker_append)

lemma search_marker_append:
  "search_marker (xs @ ys) key \<longleftrightarrow> search_marker xs key \<or> search_marker ys key"
  by (simp add: search_marker_def search_marker_from_append)

lemma map_of_filter_key:
  "map_of (filter (\<lambda>kv. q (fst kv)) th) k = (if q k then map_of th k else None)"
  by (induction th) auto

lemma has_key_filter_key:
  "has_key (filter (\<lambda>kv. q (fst kv)) th) k \<longleftrightarrow> q k \<and> has_key th k"
  by (simp add: has_key_def map_of_filter_key)

lemma search_marker_from_Nil [simp]: "\<not> search_marker_from [] prev s"
  by (induction s arbitrary: prev) (auto simp: match_marker_def)

lemma search_marker_Nil [simp]: "\<not> search_marker [] key"
  by (simp add: search_marker_def)

lemma strip_regex_bits:
  "strip_regex ((if t then 1 else 0) + (if v then 2 else 0) + (if u then 4 else 0)) =
     (if t \<or> v \<or> u
      then Some ((if t then te_markers else []) @ (if v then vae_markers else [])
                 @ (if u then unet_markers else []))
      else None)"
  by (simp add: strip_regex_def te_markers_def vae_markers_def unet_markers_def)

text \<open>What the strip of \<^verbatim>\<open>load_model\<close> removes, by the three conditions.\<close>

lemma strip_keys_filter:
  "strip_keys rq th =
     filter (\<lambda>kv. \<not> ((strips_te rq \<and> is_te_key (fst kv)) \<or> (strips_vae rq \<and> is_vae_key (fst kv))
                      \<or> (strips_unet rq \<and> is_unet_key (fst kv)))) th"
proof (cases "strips_te rq \<or> strips_vae rq \<or> strips_unet rq")
  case False
  then show ?thesis
    by (simp add: strip_keys_def strip_code_def strip_regex_def)
next
  case True
  then have pos: "0 < strip_code rq"
    by (auto simp: strip_code_def)
  have "strip_keys rq th
      = pop_matching (search_marker ((if strips_te rq then te_markers else [])
          @ (if strips_vae rq then vae_markers else [])
          @ (if strips_unet rq then unet_markers else []))) th"
    using True pos unfolding strip_keys_def
    by (simp add: strip_code_def strip_regex_bits del: One_nat_def)
  also have "\<dots> = filter (\<lambda>kv. \<not> ((strips_te rq \<and> is_te_key (fst kv))
      \<or> (strips_vae rq \<and> is_vae_key (fst kv)) \<or> (strips_unet rq \<and> is_unet_key (fst kv)))) th"
    unfolding pop_matching_filter
    by (rule filter_cong)
      (auto simp: search_marker_append is_te_key_def is_vae_key_def is_unet_key_def)
  finally show ?thesis .
qed

text \<open>
  Claim C9. When \<^verbatim>\<open>bake_in_vae\<close> is "Built in (A)", the condition that strips the VAE at load
  is false whatever the save policy of the VAE is, and the strip of \<^verbatim>\<open>load_model\<close> keeps every
  key of the VAE class (a key that the VAE pattern matches and the other two patterns do
  not) with its value. The same holds for the text encoders when "Built in (A)" is in the
  list \<^verbatim>\<open>bake_in_te\<close>.
\<close>

theorem built_in_a_overrides_remove:
  "(bake_in_vae rq = ''Built in (A)'' \<longrightarrow>
      \<not> strips_vae rq \<and>
      (\<forall>key. is_vae_key key \<and> \<not> is_te_key key \<and> \<not> is_unet_key key
             \<longrightarrow> map_of (strip_keys rq th) key = map_of th key)) \<and>
   (''Built in (A)'' \<in> set (bake_in_te rq) \<longrightarrow>
      \<not> strips_te rq \<and>
      (\<forall>key. is_te_key key \<and> \<not> is_vae_key key \<and> \<not> is_unet_key key
             \<longrightarrow> map_of (strip_keys rq th) key = map_of th key))"
proof -
  have m: "map_of (strip_keys rq th) key =
      (if \<not> ((strips_te rq \<and> is_te_key key) \<or> (strips_vae rq \<and> is_vae_key key)
             \<or> (strips_unet rq \<and> is_unet_key key))
       then map_of th key else None)" for key
    unfolding strip_keys_filter by (rule map_of_filter_key)
  have "\<not> strips_vae rq" if "bake_in_vae rq = ''Built in (A)''"
    using that by (simp add: strips_vae_def)
  moreover have "\<not> strips_te rq" if "''Built in (A)'' \<in> set (bake_in_te rq)"
    using that by (simp add: strips_te_def)
  ultimately show ?thesis
    by (simp add: m)
qed

theorem built_in_a_overrides_remove_witness:
  "save_v (example_request ''Weighted sum'' ''None (remove)'' ''Built in (A)'' [])
     = ''None (remove)'' \<and>
   \<not> strips_vae (example_request ''Weighted sum'' ''None (remove)'' ''Built in (A)'' []) \<and>
   is_vae_key ''first_stage_model.w'' \<and>
   map_of (strip_keys (example_request ''Weighted sum'' ''None (remove)'' ''Built in (A)'' [])
             [(''first_stage_model.w'', scalar 1)]) ''first_stage_model.w''
     = Some (scalar 1) \<and>
   \<not> strips_te ((example_request ''Weighted sum'' ''No change'' ''None'' [])
                  \<lparr>save_t := ''None (remove)'', bake_in_te := [''Built in (A)'']\<rparr>) \<and>
   is_te_key ''conditioner.embedders.0.w'' \<and>
   map_of (strip_keys ((example_request ''Weighted sum'' ''No change'' ''None'' [])
                  \<lparr>save_t := ''None (remove)'', bake_in_te := [''Built in (A)'']\<rparr>)
             [(''conditioner.embedders.0.w'', scalar 1)]) ''conditioner.embedders.0.w''
     = Some (scalar 1)"
proof -
  let ?rv = "example_request ''Weighted sum'' ''None (remove)'' ''Built in (A)'' []"
  let ?rt = "(example_request ''Weighted sum'' ''No change'' ''None'' [])
                  \<lparr>save_t := ''None (remove)'', bake_in_te := [''Built in (A)'']\<rparr>"
  have v: "bake_in_vae ?rv = ''Built in (A)''" "save_v ?rv = ''None (remove)''"
    by (simp_all add: example_request_def)
  have t: "''Built in (A)'' \<in> set (bake_in_te ?rt)"
    by (simp add: example_request_def)
  have kv: "is_vae_key ''first_stage_model.w'' \<and> \<not> is_te_key ''first_stage_model.w''
      \<and> \<not> is_unet_key ''first_stage_model.w''"
    by code_simp
  have kt: "is_te_key ''conditioner.embedders.0.w'' \<and> \<not> is_vae_key ''conditioner.embedders.0.w''
      \<and> \<not> is_unet_key ''conditioner.embedders.0.w''"
    by code_simp
  from built_in_a_overrides_remove [of ?rv "[(''first_stage_model.w'', scalar 1)]"] v kv
  have 1: "\<not> strips_vae ?rv"
    "map_of (strip_keys ?rv [(''first_stage_model.w'', scalar 1)]) ''first_stage_model.w''
       = map_of [(''first_stage_model.w'', scalar 1)] ''first_stage_model.w''"
    by blast+
  from built_in_a_overrides_remove [of ?rt "[(''conditioner.embedders.0.w'', scalar 1)]"] t kt
  have 2: "\<not> strips_te ?rt"
    "map_of (strip_keys ?rt [(''conditioner.embedders.0.w'', scalar 1)])
        ''conditioner.embedders.0.w''
       = map_of [(''conditioner.embedders.0.w'', scalar 1)] ''conditioner.embedders.0.w''"
    by blast+
  from 1 2 v kv kt show ?thesis
    by simp
qed

section \<open>The discard pattern\<close>

lemma has_key_keys: "map fst th = map fst th' \<Longrightarrow> has_key th k = has_key th' k"
  unfolding has_key_iff set_map [symmetric] by simp

lemma keys_recast [simp]: "map fst (recast ev regex save th) = map fst th"
  by (simp add: recast_def)

lemma keys_recast_all [simp]: "map fst (recast_all ev rq th) = map fst th"
  by (simp add: recast_all_def)

lemma keys_map_values [simp]: "map fst (map (\<lambda>(k, v). (k, f v)) th) = map fst th"
  by (induction th) auto

lemma discard_keys_absent:
  assumes "discard_keys ev rq th = Inr th'" "discard_weights rq \<noteq> []"
    and "re_compile ev (discard_weights rq) = Inr regex" "regex key"
  shows "\<not> has_key th' key"
  using assms by (auto simp: discard_keys_def has_key_pop_matching)

lemma discard_keys_subset:
  assumes "discard_keys ev rq th = Inr th'" "has_key th' key"
  shows "has_key th key"
  using assms by (auto simp: discard_keys_def has_key_pop_matching split: if_splits sum.splits)

lemma load_model_cases:
  assumes "load_model ev rq file = Inr th'"
  shows "\<exists>th d. load_torch_file ev file = Inr th \<and> discard_keys ev rq (strip_keys rq th) = Inr d
           \<and> map fst th' = map fst d"
  using assms by (auto simp: load_model_def split: sum.splits if_splits)

lemma load_model_discarded:
  assumes "load_model ev rq file = Inr th'" "discard_weights rq \<noteq> []"
    and "re_compile ev (discard_weights rq) = Inr regex" "regex key"
  shows "\<not> has_key th' key"
proof -
  from load_model_cases [OF assms(1)] obtain th d where
    d: "discard_keys ev rq (strip_keys rq th) = Inr d" "map fst th' = map fst d" by blast
  from discard_keys_absent [OF d(1) assms(2-4)] has_key_keys [OF d(2)] show ?thesis by simp
qed

lemma finish_cases:
  assumes "finish ev rq test_key th0 = Inr out"
  shows "\<exists>g th1 th2 th3. huggingface_guess ev th0 = Inr g \<and> bake_vae ev rq test_key g th0 = Inr th1
           \<and> bake_te ev rq test_key g th1 = Inr th2 \<and> discard_keys ev rq th2 = Inr th3
           \<and> out = recast_all ev rq th3"
  using assms by (auto simp: finish_def split: sum.splits)

lemma finish_discarded:
  assumes "finish ev rq test_key th0 = Inr out" "discard_weights rq \<noteq> []"
    and "re_compile ev (discard_weights rq) = Inr regex" "regex key"
  shows "\<not> has_key out key"
proof -
  from finish_cases [OF assms(1)] obtain th2 th3 where
    d: "discard_keys ev rq th2 = Inr th3" "out = recast_all ev rq th3" by blast
  have "has_key out key = has_key th3 key"
    unfolding d(2) by (rule has_key_keys) simp
  with discard_keys_absent [OF d(1) assms(2-4)] show ?thesis by simp
qed

text \<open>A run that saves a map: the load of A, and the branch that made the map.\<close>

lemma run_loaded_cases:
  assumes "run_loaded ev rq func1 func2 file_a file_b file_c = Inr (Saved out inp p2p)"
  shows "\<exists>th0. load_model ev rq file_a = Inr th0 \<and>
           (out = th0 \<or>
            (\<exists>t1 st. merge_step rq t1 th0 = Inr st
               \<and> finish ev rq (unet_test_key th0) (theta_0 st) = Inr out))"
  using assms
  by (auto simp: run_loaded_def extract_branch_def merge_branch_def split: sum.splits if_splits)

lemma run_modelmerger_cases:
  assumes "run_modelmerger ev rq = Inr (Saved out inp p2p)"
  shows "\<exists>file_a th0. load_model ev rq file_a = Inr th0 \<and>
           (out = th0 \<or>
            (\<exists>t1 st. merge_step rq t1 th0 = Inr st
               \<and> finish ev rq (unet_test_key th0) (theta_0 st) = Inr out))"
proof -
  from assms obtain func1 func2 file_a file_b file_c where
    "run_loaded ev rq func1 func2 file_a file_b file_c = Inr (Saved out inp p2p)"
    unfolding run_modelmerger_def
    by (auto split: list.splits option.splits prod.splits if_splits sum.splits)
  from run_loaded_cases [OF this] show ?thesis by blast
qed

text \<open>
  Claim C10. When the run saves a map and a discard pattern is given, the map holds no key
  that the compiled pattern matches: in the merge branch the discard is applied after the
  two baking steps and before the recasting, so a key that baking has put back is removed,
  and the extract branch saves what \<^verbatim>\<open>load_model\<close> has filtered.
\<close>

theorem discarded_keys_absent:
  assumes "run_modelmerger ev rq = Inr (Saved out inp p2p)"
    and "discard_weights rq \<noteq> []"
    and "re_compile ev (discard_weights rq) = Inr regex"
    and "regex key"
  shows "\<not> has_key out key"
proof -
  from run_modelmerger_cases [OF assms(1)] obtain file_a th0 where
    l: "load_model ev rq file_a = Inr th0"
    and b: "out = th0 \<or> (\<exists>t1 st. merge_step rq t1 th0 = Inr st
               \<and> finish ev rq (unet_test_key th0) (theta_0 st) = Inr out)" by blast
  from b show ?thesis
  proof
    assume "out = th0"
    with load_model_discarded [OF l assms(2-4)] show ?thesis by simp
  next
    assume "\<exists>t1 st. merge_step rq t1 th0 = Inr st
               \<and> finish ev rq (unet_test_key th0) (theta_0 st) = Inr out"
    then obtain st :: merge_state
      where "finish ev rq (unet_test_key th0) (theta_0 st) = Inr out" by blast
    from finish_discarded [OF this assms(2-4)] show ?thesis .
  qed
qed

theorem discarded_keys_absent_witness:
  "run_modelmerger
     (example_env [(''model.diffusion_model.w'', scalar 1)] [] [] [(''decoder.w'', scalar 7)]
        (contains ''decoder''))
     (example_request ''None'' ''No change'' ''ext.vae'' ''decoder'')
   = Inr (Saved [(''model.diffusion_model.w'', scalar 1)] False False) \<and>
   contains ''decoder'' ''first_stage_model.decoder.w'' \<and>
   \<not> has_key [(''model.diffusion_model.w'', scalar 1)] ''first_stage_model.decoder.w''"
proof -
  let ?ev = "example_env [(''model.diffusion_model.w'', scalar 1)] [] [] [(''decoder.w'', scalar 7)]
        (contains ''decoder'')"
  let ?rq = "example_request ''None'' ''No change'' ''ext.vae'' ''decoder''"
  have run: "run_modelmerger ?ev ?rq
      = Inr (Saved [(''model.diffusion_model.w'', scalar 1)] False False)"
    by code_simp
  have d: "discard_weights ?rq \<noteq> []"
    by (simp add: example_request_def)
  have c: "re_compile ?ev (discard_weights ?rq) = Inr (contains ''decoder'')"
    by (simp add: example_env_def)
  have m: "contains ''decoder'' ''first_stage_model.decoder.w''"
    by code_simp
  from discarded_keys_absent [OF run d c m] run m show ?thesis
    by simp
qed

section \<open>The remove policy of the VAE\<close>

lemma merge_a_b_keys:
  assumes "merge_a_b func2 mult th0 theta_1 = Inr st"
  shows "map fst (theta_0 st) = map fst th0"
proof -
  let ?s0 = "\<lparr>theta_0 = th0, result_is_inpainting_model = False,
               result_is_instruct_pix2pix_model = False\<rparr>"
  have run: "for_each (merge_a_b_key func2 mult theta_1) (map fst th0) ?s0 = Inr st"
    using assms by (simp add: merge_a_b_def)
  show ?thesis
    using for_each_invariant [OF run, where I = "\<lambda>t. map fst (theta_0 t) = map fst th0"]
    by (simp add: merge_a_b_key_keys)
qed

lemma merge_step_keys:
  assumes "merge_step rq t1 th0 = Inr st"
  shows "map fst (theta_0 st) = map fst th0"
  using assms
  by (auto simp: merge_step_def merge_a_b_keys split: option.splits prod.splits if_splits)

lemma load_model_stripped:
  assumes "load_model ev rq file = Inr th'" "strips_vae rq" "is_vae_key key"
  shows "\<not> has_key th' key"
proof -
  from load_model_cases [OF assms(1)] obtain th d where
    d: "discard_keys ev rq (strip_keys rq th) = Inr d" "map fst th' = map fst d" by blast
  have "has_key (strip_keys rq th) key \<longleftrightarrow>
      \<not> ((strips_te rq \<and> is_te_key key) \<or> (strips_vae rq \<and> is_vae_key key)
         \<or> (strips_unet rq \<and> is_unet_key key)) \<and> has_key th key"
    unfolding strip_keys_filter by (rule has_key_filter_key)
  then have "\<not> has_key (strip_keys rq th) key"
    using assms(2,3) by simp
  with discard_keys_subset [OF d(1)] have "\<not> has_key d key" by blast
  with has_key_keys [OF d(2)] show ?thesis by simp
qed

lemma finish_without_baking:
  assumes "finish ev rq test_key th0 = Inr out"
    and "contains ''None'' (bake_in_vae rq) \<or> contains ''Built in'' (bake_in_vae rq)"
    and "bake_in_te rq = [] \<or> ''Built in'' \<in> set (bake_in_te rq)"
    and "has_key out key"
  shows "has_key th0 key"
proof -
  from finish_cases [OF assms(1)] obtain g th1 th2 th3 where
    f: "bake_vae ev rq test_key g th0 = Inr th1" "bake_te ev rq test_key g th1 = Inr th2"
    "discard_keys ev rq th2 = Inr th3" "out = recast_all ev rq th3" by blast
  have "th1 = th0" using f(1) assms(2) by (auto simp: bake_vae_def)
  moreover have "th2 = th1" using f(2) assms(3) by (auto simp: bake_te_def)
  moreover have "has_key th3 key"
    using assms(4) unfolding f(4) has_key_keys [OF keys_recast_all] .
  ultimately show ?thesis using discard_keys_subset [OF f(3)] by simp
qed

text \<open>
  Claim C4, as the code has it. When the run saves a map, the save policy of the VAE is
  "None (remove)", the method is not "Extract VAE", \<^verbatim>\<open>bake_in_vae\<close> is not "Built in (A)" and
  neither baking step runs (\<^verbatim>\<open>bake_in_vae\<close> contains "None" or "Built in", and \<^verbatim>\<open>bake_in_te\<close> is
  empty or has the element "Built in"), the map holds no key that the VAE pattern matches.
\<close>

theorem removed_vae_absent:
  assumes "run_modelmerger ev rq = Inr (Saved out inp p2p)"
    and "save_v rq = ''None (remove)''"
    and "interp_method rq \<noteq> ''Extract VAE''"
    and "bake_in_vae rq \<noteq> ''Built in (A)''"
    and "contains ''None'' (bake_in_vae rq) \<or> contains ''Built in'' (bake_in_vae rq)"
    and "bake_in_te rq = [] \<or> ''Built in'' \<in> set (bake_in_te rq)"
    and "is_vae_key key"
  shows "\<not> has_key out key"
proof -
  have s: "strips_vae rq"
    using assms(2,4) by (simp add: strips_vae_def)
  from run_modelmerger_cases [OF assms(1)] obtain file_a th0 where
    l: "load_model ev rq file_a = Inr th0"
    and b: "out = th0 \<or> (\<exists>t1 st. merge_step rq t1 th0 = Inr st
               \<and> finish ev rq (unet_test_key th0) (theta_0 st) = Inr out)" by blast
  have no: "\<not> has_key th0 key"
    using load_model_stripped [OF l s assms(7)] .
  from b show ?thesis
  proof
    assume "out = th0"
    with no show ?thesis by simp
  next
    assume "\<exists>t1 st. merge_step rq t1 th0 = Inr st
               \<and> finish ev rq (unet_test_key th0) (theta_0 st) = Inr out"
    then obtain t1 and st :: merge_state where
      m: "merge_step rq t1 th0 = Inr st"
      and f: "finish ev rq (unet_test_key th0) (theta_0 st) = Inr out" by blast
    have "\<not> has_key (theta_0 st) key"
      using no has_key_keys [OF merge_step_keys [OF m]] by simp
    with finish_without_baking [OF f assms(5,6)] show ?thesis by blast
  qed
qed

theorem removed_vae_absent_witness:
  "run_modelmerger
     (example_env [(''first_stage_model.w'', scalar 1), (''model.diffusion_model.w'', scalar 1)]
        [(''first_stage_model.w'', scalar 3), (''model.diffusion_model.w'', scalar 3)] [] []
        matches_nothing)
     (example_request ''Weighted sum'' ''None (remove)'' ''None'' [])
   = Inr (Saved [(''model.diffusion_model.w'', scalar 2)] False False) \<and>
   is_vae_key ''first_stage_model.w'' \<and>
   \<not> has_key [(''model.diffusion_model.w'', scalar 2)] ''first_stage_model.w''"
proof -
  let ?ev = "example_env [(''first_stage_model.w'', scalar 1), (''model.diffusion_model.w'', scalar 1)]
        [(''first_stage_model.w'', scalar 3), (''model.diffusion_model.w'', scalar 3)] [] []
        matches_nothing"
  let ?rq = "example_request ''Weighted sum'' ''None (remove)'' ''None'' []"
  have run: "run_modelmerger ?ev ?rq
      = Inr (Saved [(''model.diffusion_model.w'', scalar 2)] False False)"
    by code_simp
  have h: "save_v ?rq = ''None (remove)''" "interp_method ?rq \<noteq> ''Extract VAE''"
    "bake_in_vae ?rq \<noteq> ''Built in (A)''"
    by (simp_all add: example_request_def)
  have n: "contains ''None'' (bake_in_vae ?rq) \<or> contains ''Built in'' (bake_in_vae ?rq)"
    by code_simp
  have t: "bake_in_te ?rq = [] \<or> ''Built in'' \<in> set (bake_in_te ?rq)"
    by (simp add: example_request_def)
  have k: "is_vae_key ''first_stage_model.w''"
    by code_simp
  from removed_vae_absent [OF run h n t k] run k show ?thesis
    by simp
qed

text \<open>
  Claim C4 as stated fails. With the VAE policy "None (remove)" and the method "None", the
  key \<^verbatim>\<open>first_stage_model.w\<close> of the VAE is saved when \<^verbatim>\<open>bake_in_vae\<close> is "Built in (A)", and a
  key of the VAE is saved when an external VAE is baked in.
\<close>

theorem removed_vae_kept_counterexample:
  "is_vae_key ''first_stage_model.w'' \<and>
   save_v (example_request ''None'' ''None (remove)'' ''Built in (A)'' []) = ''None (remove)'' \<and>
   run_modelmerger
     (example_env [(''first_stage_model.w'', scalar 1), (''model.diffusion_model.w'', scalar 1)]
        [] [] [] matches_nothing)
     (example_request ''None'' ''None (remove)'' ''Built in (A)'' [])
   = Inr (Saved [(''first_stage_model.w'', scalar 1), (''model.diffusion_model.w'', scalar 1)]
            False False) \<and>
   has_key [(''first_stage_model.w'', scalar 1), (''model.diffusion_model.w'', scalar 1)]
     ''first_stage_model.w'' \<and>
   is_vae_key ''first_stage_model.decoder.w'' \<and>
   run_modelmerger
     (example_env [(''first_stage_model.w'', scalar 1), (''model.diffusion_model.w'', scalar 1)]
        [] [] [(''decoder.w'', scalar 7)] matches_nothing)
     (example_request ''None'' ''None (remove)'' ''ext.vae'' [])
   = Inr (Saved [(''model.diffusion_model.w'', scalar 1),
                 (''first_stage_model.decoder.w'', scalar 7)] False False)"
  by code_simp

section \<open>Baking with an unknown architecture\<close>









section \<open>Chunks of a list\<close>

lemma chunks_Nil [simp]: "chunks m [] = []"
  by (simp add: chunks.simps)

lemma chunks_zero [simp]: "chunks 0 xs = []"
  by (simp add: chunks.simps)

lemma concat_chunks: "0 < m \<Longrightarrow> concat (chunks m xs) = xs"
proof (induction m xs rule: chunks.induct)
  case (1 n xs)
  then show ?case by (subst chunks.simps) auto
qed

lemma chunks_concat:
  assumes "0 < m" "\<forall>c \<in> set xss. length c = m"
  shows "chunks m (concat xss) = xss"
  using assms(2)
proof (induction xss)
  case Nil
  show ?case by simp
next
  case (Cons c xss)
  then have c: "length c = m" "c \<noteq> []" using assms(1) by auto
  show ?case
    using Cons c assms(1) by (subst chunks.simps) simp
qed

lemma chunks_lengths:
  assumes "0 < m" "length xs = n * m"
  shows "length (chunks m xs) = n \<and> (\<forall>c \<in> set (chunks m xs). length c = m)"
  using assms(2)
proof (induction n arbitrary: xs)
  case 0
  then show ?case by simp
next
  case (Suc n)
  then have ne: "xs \<noteq> []" and l: "length (drop m xs) = n * m" and t: "length (take m xs) = m"
    using assms(1) by auto
  from Suc.IH [OF l] ne t assms(1) show ?case
    by (subst (1 2) chunks.simps) simp
qed

lemma map_take_assign:
  assumes "length as = length rs" "\<forall>r \<in> set rs. length r = k"
  shows "map (take k) (map2 (\<lambda>ca cr. cr @ drop k ca) as rs) = rs"
  using assms by (induction as rs rule: list_induct2) auto

lemma map_drop_assign:
  assumes "length as = length rs" "\<forall>r \<in> set rs. length r = k"
  shows "map (drop k) (map2 (\<lambda>ca cr. cr @ drop k ca) as rs) = map (drop k) as"
  using assms by (induction as rs rule: list_induct2) auto

lemma lengths_assign:
  assumes "length as = length rs" "\<forall>r \<in> set rs. length r = k" "\<forall>a \<in> set as. length a = m"
    and "k \<le> m"
  shows "\<forall>x \<in> set (map2 (\<lambda>ca cr. cr @ drop k ca) as rs). length x = m"
  using assms by (induction as rs rule: list_induct2) auto

text \<open>Writing \<open>k\<close> elements at the head of every chunk of \<open>m\<close> elements.\<close>

lemma assign_chunks:
  assumes "k \<le> m" "length xs = n * m" "length rs = n * k" "k = 0 \<longrightarrow> m = 0"
  defines "V \<equiv> concat (map2 (\<lambda>ca cr. cr @ drop k ca) (chunks m xs) (chunks k rs))"
  shows "concat (map (take k) (chunks m V)) = rs"
    and "concat (map (drop k) (chunks m V)) = concat (map (drop k) (chunks m xs))"
proof -
  let ?W = "map2 (\<lambda>ca cr. cr @ drop k ca) (chunks m xs) (chunks k rs)"
  have "concat (map (take k) (chunks m V)) = rs
      \<and> concat (map (drop k) (chunks m V)) = concat (map (drop k) (chunks m xs))"
  proof (cases "0 < k")
    case True
    then have m: "0 < m" using assms(1) by simp
    note A = chunks_lengths [OF m assms(2)]
    note R = chunks_lengths [OF True assms(3)]
    have len: "length (chunks m xs) = length (chunks k rs)" using A R by simp
    have "\<forall>x \<in> set ?W. length x = m"
      using lengths_assign [OF len _ _ assms(1)] A R by blast
    then have c: "chunks m V = ?W"
      unfolding V_def using chunks_concat [OF m] by blast
    have "map (take k) ?W = chunks k rs"
      using map_take_assign [OF len] R by blast
    moreover have "map (drop k) ?W = map (drop k) (chunks m xs)"
      using map_drop_assign [OF len] R by blast
    ultimately show ?thesis
      using c concat_chunks [OF True] by simp
  next
    case False
    then have "rs = []" "m = 0" using assms(3,4) by simp_all
    then show ?thesis
      by simp
  qed
  then show "concat (map (take k) (chunks m V)) = rs"
    and "concat (map (drop k) (chunks m V)) = concat (map (drop k) (chunks m xs))"
    by simp_all
qed

section \<open>Channel mismatch: the legal cases\<close>

lemma length_concat_const:
  "\<forall>c \<in> set xss. length c = k \<Longrightarrow> length (concat xss) = length xss * k"
  by (induction xss) auto

lemma length_slice_data:
  assumes "k \<le> m" "length xs = n * m" "k = 0 \<longrightarrow> m = 0"
  shows "length (concat (map (take k) (chunks m xs))) = n * k"
proof (cases "0 < m")
  case True
  note A = chunks_lengths [OF True assms(2)]
  have "\<forall>c \<in> set (map (take k) (chunks m xs)). length c = k"
    using A assms(1) by auto
  from length_concat_const [OF this] A show ?thesis by simp
next
  case False
  then show ?thesis using assms by simp
qed

lemma operator_same_shape:
  assumes "func2 = weighted_sum \<or> func2 = add_difference"
    and "shape x = shape y" "length (data x) = length (data y)"
  shows "\<exists>r. func2 x y mult = Inr r \<and> shape r = shape x \<and> length (data r) = length (data x)"
  using assms
  by (auto simp: weighted_sum_def add_difference_def tensor_binop_def scalar_mul_def)

lemma merge_channels_result:
  assumes "wf_tensor a" "wf_tensor b"
    and sa: "shape a = d0 # c # d2 # d3 # ds" and sb: "shape b = d0 # 4 # d2 # d3 # ds"
    and f: "func2 = weighted_sum \<or> func2 = add_difference"
    and c: "4 \<le> c"
  shows "\<exists>a4 r v. slice_channels a = Inr a4 \<and> func2 a4 b mult = Inr r \<and>
           merge_channels func2 mult a b = Inr v \<and> shape v = shape a \<and>
           slice_channels v = Inr r \<and> rest_channels v = rest_channels a"
proof -
  define p where "p = prod_list (d2 # d3 # ds)"
  define k where "k = 4 * p"
  define m where "m = c * p"
  define a4 where "a4 = \<lparr>shape = d0 # 4 # d2 # d3 # ds,
      data = concat (map (take k) (chunks m (data a)))\<rparr>"
  have km: "k \<le> m" "k = 0 \<longrightarrow> m = 0"
    using c by (auto simp: k_def m_def)
  have la: "length (data a) = d0 * m"
    using assms(1) sa by (simp add: wf_tensor_def m_def p_def)
  have lb: "length (data b) = d0 * k"
    using assms(2) sb by (simp add: wf_tensor_def k_def p_def)
  have min4: "min 4 c = 4"
    using c by simp
  have slice: "slice_channels t = Inr \<lparr>shape = d0 # 4 # d2 # d3 # ds,
      data = concat (map (take k) (chunks m (data t)))\<rparr>"
    if "shape t = shape a" for t
    using that sa min4 by (simp add: slice_channels_def Let_def k_def m_def p_def)
  have rest: "rest_channels t = Inr \<lparr>shape = d0 # (c - 4) # d2 # d3 # ds,
      data = concat (map (drop k) (chunks m (data t)))\<rparr>"
    if "shape t = shape a" for t
    using that sa min4 by (simp add: rest_channels_def Let_def k_def m_def p_def)
  have s1: "slice_channels a = Inr a4"
    using slice [of a] by (simp add: a4_def)
  have l4: "length (data a4) = length (data b)"
    using length_slice_data [OF km(1) la km(2)] lb by (simp add: a4_def)
  have "shape a4 = shape b"
    using sb by (simp add: a4_def)
  from operator_same_shape [OF f this l4, of mult] obtain r where
    r: "func2 a4 b mult = Inr r" "shape r = shape a4" "length (data r) = length (data a4)"
    by blast
  have lr: "length (data r) = d0 * k"
    using r(3) l4 lb by simp
  define v where "v = a\<lparr>data := concat (map2 (\<lambda>ca cr. cr @ drop k ca)
      (chunks m (data a)) (chunks k (data r)))\<rparr>"
  have sv: "shape v = shape a"
    by (simp add: v_def)
  have as: "assign_channels a r = Inr v"
    using sa r(2) min4 by (simp add: assign_channels_def Let_def a4_def v_def k_def m_def p_def)
  have mc: "merge_channels func2 mult a b = Inr v"
    using s1 r(1) as by (simp add: merge_channels_def)
  note ch = assign_chunks [OF km(1) la lr km(2)]
  have "slice_channels v = Inr \<lparr>shape = d0 # 4 # d2 # d3 # ds, data = data r\<rparr>"
    using slice [OF sv] ch(1) by (simp add: v_def)
  then have s2: "slice_channels v = Inr r"
    using r(2) by (simp add: a4_def tensor_eqI)
  have "rest_channels v = rest_channels a"
    using rest [OF sv] rest [of a] ch(2) by (simp add: v_def)
  with s1 r(1) mc sv s2 show ?thesis by blast
qed

lemma merge_pair_channels:
  assumes "wf_tensor a" "wf_tensor b"
    and sa: "shape a = d0 # c # d2 # d3 # ds" and sb: "shape b = d0 # 4 # d2 # d3 # ds"
    and f: "func2 = weighted_sum \<or> func2 = add_difference"
    and c: "c = 9 \<or> c = 8"
  shows "\<exists>a4 r v. slice_channels a = Inr a4 \<and> func2 a4 b mult = Inr r \<and>
           merge_pair func2 mult a b flags = Inr (v, c = 9 \<or> fst flags, c = 8 \<or> snd flags) \<and>
           shape v = shape a \<and> slice_channels v = Inr r \<and> rest_channels v = rest_channels a"
proof -
  have "4 \<le> c" using c by auto
  from merge_channels_result [OF assms(1,2) sa sb f this, of mult] obtain a4 r v where
    v: "slice_channels a = Inr a4" "func2 a4 b mult = Inr r"
    "merge_channels func2 mult a b = Inr v" "shape v = shape a"
    "slice_channels v = Inr r" "rest_channels v = rest_channels a" by blast
  have "merge_pair func2 mult a b flags = Inr (v, c = 9 \<or> fst flags, c = 8 \<or> snd flags)"
    using c sa sb v(3) by (auto simp: merge_pair_def channels_are_def shape_at1_def)
  with v show ?thesis by blast
qed

lemma for_each_visit_keeps:
  assumes "for_each body xs s = Inr s'" and "k \<in> set xs" and "distinct xs"
    and "\<And>x t t'. x \<noteq> k \<Longrightarrow> body x t = Inr t' \<Longrightarrow> obs t' = obs t"
    and "\<And>x t t'. body x t = Inr t' \<Longrightarrow> Q t \<Longrightarrow> Q t'"
  shows "\<exists>t t'. body k t = Inr t' \<and> obs t = obs s \<and> obs s' = obs t' \<and> (Q t' \<longrightarrow> Q s')"
  using assms(1-3)
proof (induction xs arbitrary: s)
  case Nil
  then show ?case by simp
next
  case (Cons x xs)
  from Cons.prems(1) obtain s1 where s1: "body x s = Inr s1" "for_each body xs s1 = Inr s'"
    by (auto split: sum.splits)
  show ?case
  proof (cases "x = k")
    case True
    then have "k \<notin> set xs" using Cons.prems(3) by simp
    then have "obs s' = obs s1"
      using for_each_invariant [OF s1(2), where I = "\<lambda>t. obs t = obs s1"] assms(4)
      by metis
    moreover have "Q s1 \<longrightarrow> Q s'"
      using for_each_invariant [OF s1(2), where I = Q] assms(5) by blast
    ultimately show ?thesis using s1(1) True by blast
  next
    case False
    then have "k \<in> set xs" "distinct xs" using Cons.prems by auto
    from Cons.IH [OF s1(2) this] obtain t t' where
      "body k t = Inr t'" "obs t = obs s1" "obs s' = obs t'" "Q t' \<longrightarrow> Q s'" by blast
    moreover have "obs s1 = obs s" using assms(4) [OF False s1(1)] .
    ultimately show ?thesis by metis
  qed
qed

lemma merge_pair_flags:
  assumes "merge_pair func2 mult a b (i, p) = Inr (v, i', p')"
  shows "(i \<longrightarrow> i') \<and> (p \<longrightarrow> p')"
  using assms unfolding merge_pair_def
  by (simp split: if_splits sum.splits bool.splits)

lemma merge_a_b_key_state:
  assumes "merge_a_b_key func2 mult theta_1 key st = Inr st'"
  shows "st' = st \<or>
         (\<exists>a b v i p. map_of (theta_0 st) key = Some a \<and> map_of theta_1 key = Some b \<and>
             merge_pair func2 mult a b
               (result_is_inpainting_model st, result_is_instruct_pix2pix_model st) = Inr (v, i, p) \<and>
             st' = \<lparr>theta_0 = AList.update key v (theta_0 st), result_is_inpainting_model = i,
                    result_is_instruct_pix2pix_model = p\<rparr>)"
  using assms unfolding merge_a_b_key_def
  by (auto split: if_splits sum.splits prod.splits simp: getitem_Inr)

lemma merge_a_b_key_flags:
  assumes "merge_a_b_key func2 mult theta_1 key st = Inr st'"
  shows "(result_is_inpainting_model st \<longrightarrow> result_is_inpainting_model st') \<and>
         (result_is_instruct_pix2pix_model st \<longrightarrow> result_is_instruct_pix2pix_model st')"
  using merge_a_b_key_state [OF assms] merge_pair_flags
  by fastforce

lemma merge_a_b_key_merged_state:
  assumes "merge_a_b_key func2 mult theta_1 key st = Inr st'"
    and "map_of (theta_0 st) key = Some a" "map_of theta_1 key = Some b"
    and "contains ''model'' key" "key \<notin> set checkpoint_dict_skip_on_merge"
  shows "\<exists>v i p. merge_pair func2 mult a b
               (result_is_inpainting_model st, result_is_instruct_pix2pix_model st) = Inr (v, i, p) \<and>
             st' = \<lparr>theta_0 = AList.update key v (theta_0 st), result_is_inpainting_model = i,
                    result_is_instruct_pix2pix_model = p\<rparr>"
  using assms unfolding merge_a_b_key_def
  by (auto split: if_splits sum.splits prod.splits simp: getitem_Inr has_key_def)

text \<open>
  Claim C6. The channel dimension is dimension 1 of a convolution weight, which the slice
  \<^verbatim>\<open>[:, 0:4, :, :]\<close> of the code takes with four indices: a tensor of rank 4, and the
  statement covers every rank from 4 on. Let A and B be well-formed tensors that agree in
  every dimension but dimension 1, where A has 9 or 8 channels and B has 4, and let the
  operator be the weighted sum or the added difference, the two operators of the table.
  Then the step succeeds: the new value has the shape of A, its first 4 channels are the
  operator applied to the first 4 channels of A and to B, its channels from 4 on are those
  of A, and the flag of the inpainting model (9 channels) or of the instruct-pix2pix model
  (8 channels) is set. When the loop over the keys of the dictionary A succeeds, the value
  it leaves at a merged key with such tensors is that value, and the flag is set at the end
  of the loop.
\<close>

theorem channel_mismatch_merges_first_four:
  assumes "wf_tensor a" "wf_tensor b"
    and "shape a = d0 # c # d2 # d3 # ds" and "shape b = d0 # 4 # d2 # d3 # ds"
    and "func2 = weighted_sum \<or> func2 = add_difference"
    and "c = 9 \<or> c = 8"
  shows "(\<exists>a4 r v. slice_channels a = Inr a4 \<and> func2 a4 b mult = Inr r \<and>
            merge_pair func2 mult a b flags = Inr (v, c = 9 \<or> fst flags, c = 8 \<or> snd flags) \<and>
            shape v = shape a \<and> slice_channels v = Inr r \<and> rest_channels v = rest_channels a) \<and>
         (distinct (map fst th0) \<and> map_of th0 key = Some a \<and> map_of theta_1 key = Some b \<and>
          contains ''model'' key \<and> key \<notin> set checkpoint_dict_skip_on_merge \<and>
          merge_a_b func2 mult th0 theta_1 = Inr st \<longrightarrow>
            (\<exists>a4 r v. slice_channels a = Inr a4 \<and> func2 a4 b mult = Inr r \<and>
               map_of (theta_0 st) key = Some v \<and>
               shape v = shape a \<and> slice_channels v = Inr r \<and> rest_channels v = rest_channels a) \<and>
            (c = 9 \<longrightarrow> result_is_inpainting_model st) \<and>
            (c = 8 \<longrightarrow> result_is_instruct_pix2pix_model st))"
proof (intro conjI impI)
  note pair = merge_pair_channels [OF assms, of mult]
  show "\<exists>a4 r v. slice_channels a = Inr a4 \<and> func2 a4 b mult = Inr r \<and>
            merge_pair func2 mult a b flags = Inr (v, c = 9 \<or> fst flags, c = 8 \<or> snd flags) \<and>
            shape v = shape a \<and> slice_channels v = Inr r \<and> rest_channels v = rest_channels a"
    using pair [of flags] .
  assume h: "distinct (map fst th0) \<and> map_of th0 key = Some a \<and> map_of theta_1 key = Some b \<and>
          contains ''model'' key \<and> key \<notin> set checkpoint_dict_skip_on_merge \<and>
          merge_a_b func2 mult th0 theta_1 = Inr st"
  let ?body = "merge_a_b_key func2 mult theta_1"
  let ?s0 = "\<lparr>theta_0 = th0, result_is_inpainting_model = False,
               result_is_instruct_pix2pix_model = False\<rparr>"
  let ?Q = "\<lambda>t. (c = 9 \<longrightarrow> result_is_inpainting_model t)
               \<and> (c = 8 \<longrightarrow> result_is_instruct_pix2pix_model t)"
  have run: "for_each ?body (map fst th0) ?s0 = Inr st"
    using h by (simp add: merge_a_b_def)
  have k: "key \<in> set (map fst th0)"
    using h by (metis map_of_eq_None_iff option.distinct(1) set_map)
  have d: "distinct (map fst th0)" using h by simp
  have "\<exists>t t'. ?body key t = Inr t' \<and> map_of (theta_0 t) key = map_of (theta_0 ?s0) key
      \<and> map_of (theta_0 st) key = map_of (theta_0 t') key \<and> (?Q t' \<longrightarrow> ?Q st)"
  proof (rule for_each_visit_keeps [OF run k d])
    show "map_of (theta_0 t') key = map_of (theta_0 t) key"
      if "x \<noteq> key" "?body x t = Inr t'" for x t t'
      using merge_a_b_key_other [OF that(2,1)] .
    show "?Q t'" if "?body x t = Inr t'" "?Q t" for x t t'
      using merge_a_b_key_flags [OF that(1)] that(2) by blast
  qed
  then obtain t t' where t: "?body key t = Inr t'" "map_of (theta_0 t) key = Some a"
    "map_of (theta_0 st) key = map_of (theta_0 t') key" "?Q t' \<longrightarrow> ?Q st"
    using h by auto
  from merge_a_b_key_merged_state [OF t(1,2)] h obtain v i p where
    m: "merge_pair func2 mult a b
          (result_is_inpainting_model t, result_is_instruct_pix2pix_model t) = Inr (v, i, p)"
      "t' = \<lparr>theta_0 = AList.update key v (theta_0 t), result_is_inpainting_model = i,
            result_is_instruct_pix2pix_model = p\<rparr>"
    by blast
  from pair [of "(result_is_inpainting_model t, result_is_instruct_pix2pix_model t)"]
  obtain a4 r v' where
    v': "slice_channels a = Inr a4" "func2 a4 b mult = Inr r"
      "merge_pair func2 mult a b
         (result_is_inpainting_model t, result_is_instruct_pix2pix_model t)
        = Inr (v', c = 9 \<or> result_is_inpainting_model t,
               c = 8 \<or> result_is_instruct_pix2pix_model t)"
      "shape v' = shape a" "slice_channels v' = Inr r" "rest_channels v' = rest_channels a"
    by auto
  have e: "v = v'" "i = (c = 9 \<or> result_is_inpainting_model t)"
    "p = (c = 8 \<or> result_is_instruct_pix2pix_model t)"
    using m(1) v'(3) by simp_all
  have "map_of (theta_0 st) key = Some v'"
    using t(3) m(2) e(1) by (simp add: update_conv')
  with v' show "\<exists>a4 r v. slice_channels a = Inr a4 \<and> func2 a4 b mult = Inr r \<and>
               map_of (theta_0 st) key = Some v \<and>
               shape v = shape a \<and> slice_channels v = Inr r \<and> rest_channels v = rest_channels a"
    by blast
  have "?Q t'" using m(2) e(2,3) by simp
  with t(4) have q: "?Q st" by blast
  show "result_is_inpainting_model st" if "c = 9"
    using q that by blast
  show "result_is_instruct_pix2pix_model st" if "c = 8"
    using q that by blast
qed

theorem channel_mismatch_merges_first_four_witness:
  "wf_tensor \<lparr>shape = [1, 9, 1, 1], data = map Fin [1, 2, 3, 4, 5, 6, 7, 8, 9]\<rparr> \<and>
   wf_tensor \<lparr>shape = [1, 4, 1, 1], data = map Fin [3, 4, 5, 6]\<rparr> \<and>
   (\<exists>a4 r v.
      slice_channels \<lparr>shape = [1, 9, 1, 1], data = map Fin [1, 2, 3, 4, 5, 6, 7, 8, 9]\<rparr>
        = Inr a4 \<and>
      weighted_sum a4 \<lparr>shape = [1, 4, 1, 1], data = map Fin [3, 4, 5, 6]\<rparr> (Fin (1 / 2)) = Inr r \<and>
      merge_pair weighted_sum (Fin (1 / 2))
        \<lparr>shape = [1, 9, 1, 1], data = map Fin [1, 2, 3, 4, 5, 6, 7, 8, 9]\<rparr>
        \<lparr>shape = [1, 4, 1, 1], data = map Fin [3, 4, 5, 6]\<rparr> (False, False)
        = Inr (v, True, False) \<and>
      slice_channels v = Inr r \<and>
      rest_channels v
        = rest_channels \<lparr>shape = [1, 9, 1, 1], data = map Fin [1, 2, 3, 4, 5, 6, 7, 8, 9]\<rparr>) \<and>
   merge_a_b weighted_sum (Fin (1 / 2))
     [(''model.diffusion_model.input_blocks.0.0.weight'',
       \<lparr>shape = [1, 9, 1, 1], data = map Fin [1, 2, 3, 4, 5, 6, 7, 8, 9]\<rparr>)]
     [(''model.diffusion_model.input_blocks.0.0.weight'',
       \<lparr>shape = [1, 4, 1, 1], data = map Fin [3, 4, 5, 6]\<rparr>)]
   = Inr \<lparr>theta_0 = [(''model.diffusion_model.input_blocks.0.0.weight'',
             \<lparr>shape = [1, 9, 1, 1], data = map Fin [2, 3, 4, 5, 5, 6, 7, 8, 9]\<rparr>)],
          result_is_inpainting_model = True, result_is_instruct_pix2pix_model = False\<rparr> \<and>
   result_is_inpainting_model
     \<lparr>theta_0 = [(''model.diffusion_model.input_blocks.0.0.weight'',
             \<lparr>shape = [1, 9, 1, 1], data = map Fin [2, 3, 4, 5, 5, 6, 7, 8, 9]\<rparr>)],
          result_is_inpainting_model = True, result_is_instruct_pix2pix_model = False\<rparr>"
proof -
  let ?a = "\<lparr>shape = [1, 9, 1, 1], data = map Fin [1, 2, 3, 4, 5, 6, 7, 8, 9]\<rparr>"
  let ?b = "\<lparr>shape = [1, 4, 1, 1], data = map Fin [3, 4, 5, 6]\<rparr>"
  let ?k = "''model.diffusion_model.input_blocks.0.0.weight''"
  let ?st = "\<lparr>theta_0 = [(?k, \<lparr>shape = [1, 9, 1, 1], data = map Fin [2, 3, 4, 5, 5, 6, 7, 8, 9]\<rparr>)],
          result_is_inpainting_model = True, result_is_instruct_pix2pix_model = False\<rparr>"
  have wf: "wf_tensor ?a" "wf_tensor ?b"
    by (simp_all add: wf_tensor_def)
  have sh: "shape ?a = 1 # 9 # 1 # 1 # []" "shape ?b = 1 # 4 # 1 # 1 # []"
    by simp_all
  have f: "weighted_sum = weighted_sum \<or> weighted_sum = add_difference"
    by simp
  have c: "(9::nat) = 9 \<or> (9::nat) = 8"
    by simp
  have run: "merge_a_b weighted_sum (Fin (1 / 2)) [(?k, ?a)] [(?k, ?b)] = Inr ?st"
    by code_simp
  have h: "distinct (map fst [(?k, ?a)]) \<and> map_of [(?k, ?a)] ?k = Some ?a
      \<and> map_of [(?k, ?b)] ?k = Some ?b \<and> contains ''model'' ?k
      \<and> ?k \<notin> set checkpoint_dict_skip_on_merge"
    by code_simp
  note t = channel_mismatch_merges_first_four [OF wf sh f c, where mult = "Fin (1 / 2)"
      and flags = "(False, False)" and ?th0.0 = "[(?k, ?a)]" and key = ?k
      and ?theta_1.0 = "[(?k, ?b)]" and st = ?st]
  from t have "\<exists>a4 r v. slice_channels ?a = Inr a4 \<and> weighted_sum a4 ?b (Fin (1 / 2)) = Inr r \<and>
      merge_pair weighted_sum (Fin (1 / 2)) ?a ?b (False, False) = Inr (v, True, False) \<and>
      slice_channels v = Inr r \<and> rest_channels v = rest_channels ?a"
    by auto
  moreover from t h run have "result_is_inpainting_model ?st"
    by blast
  ultimately show ?thesis
    using wf run by blast
qed

end
